theory Spec2Isabelle
  imports Complex_Main
begin

section \<open>Values, errors and tensors\<close>

text \<open>
  The development embeds the numerical core of the competitive-mirror-descent optimiser
  (\<^verbatim>\<open>multi_cmd/cmd_utils.py\<close> and \<^verbatim>\<open>multi_cmd/optim/potentials.py\<close>).
  Scalars are real numbers (exact arithmetic stands in for floating point), a flattened
  vector is a list of scalars, and every exception the Python raises is a value
  \<open>Inl err\<close> of a sum type.
\<close>

datatype error = IndexError | RuntimeError | UnboundLocalError

definition bindE :: "error + 'a \<Rightarrow> ('a \<Rightarrow> error + 'b) \<Rightarrow> error + 'b" where
  "bindE m f = (case m of Inl e \<Rightarrow> Inl e | Inr x \<Rightarrow> f x)"

text \<open>Python's \<^verbatim>\<open>xs[i]\<close> for a non-negative index: out of range raises.\<close>

definition nthE :: "'a list \<Rightarrow> nat \<Rightarrow> error + 'a" where
  "nthE xs i = (if i < length xs then Inr (xs ! i) else Inl IndexError)"

text \<open>
  A tensor is its shape and its elements in row-major order; \<open>numel\<close> is the element
  count torch derives from the shape. A parameter is a leaf tensor with an identity
  (\<open>pname\<close>), by which the differentiation engine tells parameters apart.
\<close>

record 'a tensor =
  shape :: "nat list"
  data :: "'a list"

record param = "real tensor" +
  pname :: nat

definition numel :: "('a, 'b) tensor_scheme \<Rightarrow> nat" where
  "numel t = prod_list (shape t)"

definition wf_tensor :: "('a, 'b) tensor_scheme \<Rightarrow> bool" where
  "wf_tensor t = (length (data t) = numel t)"

type_synonym vec = "real list"

section \<open>Vector algebra utilities\<close>

text \<open>
  \<^verbatim>\<open>flatten_filter_none(grad_list, param_list, detach, neg)\<close>: the loop over
  \<^verbatim>\<open>zip(grad_list, param_list)\<close> collects \<^verbatim>\<open>grad.contiguous().view(-1)\<close>, or
  \<^verbatim>\<open>torch.zeros(param.numel())\<close> for a \<^verbatim>\<open>None\<close> gradient; \<^verbatim>\<open>torch.cat\<close> raises on an
  empty list. The flag \<^verbatim>\<open>detach\<close> only removes the result from the differentiable graph
  and leaves its values as they are.
\<close>

fun filtered :: "('a::zero, 'b) tensor_scheme option list \<Rightarrow> ('c, 'd) tensor_scheme list \<Rightarrow> 'a list list" where
  "filtered (grad # grad_list) (param # param_list) =
     (case grad of None \<Rightarrow> replicate (numel param) 0 | Some g \<Rightarrow> data g)
       # filtered grad_list param_list"
| "filtered _ _ = []"

definition cat :: "'a list list \<Rightarrow> error + 'a list" where
  "cat ts = (if ts = [] then Inl RuntimeError else Inr (concat ts))"

definition flatten_filter_none ::
  "('a::{zero,uminus}, 'b) tensor_scheme option list \<Rightarrow> ('c, 'd) tensor_scheme list \<Rightarrow> bool \<Rightarrow> bool
     \<Rightarrow> error + 'a list" where
  "flatten_filter_none grad_list param_list detach neg =
     bindE (cat (filtered grad_list param_list))
       (\<lambda>c. Inr (if \<not> neg then c else map uminus c))"

text \<open>
  The write-back loop of \<^verbatim>\<open>CMD.step\<close> for one player:
  \<^verbatim>\<open>p.data = mapped_flattened[idx: idx + p.numel()].reshape(p.shape); idx += p.numel()\<close>.
  A Python slice is cut off at the end of the vector; \<^verbatim>\<open>reshape\<close> raises when the
  slice does not have the element count of the shape. The parameters assigned before a
  failure keep their new data, so the function returns the parameters as they are left
  together with the error, if any.
\<close>

fun write_back :: "param list \<Rightarrow> vec \<Rightarrow> nat \<Rightarrow> param list \<times> error option" where
  "write_back [] mapped_flattened idx = ([], None)"
| "write_back (p # player) mapped_flattened idx =
     (let s = take (numel p) (drop idx mapped_flattened) in
      if length s \<noteq> prod_list (shape p) then (p # player, Some RuntimeError)
      else (case write_back player mapped_flattened (idx + numel p) of
              (player', e) \<Rightarrow> (p\<lparr>data := s\<rparr> # player', e)))"

text \<open>The flattening of a player's own parameters, as \<^verbatim>\<open>CMD.step\<close> calls it.\<close>

definition flatten_player :: "param list \<Rightarrow> error + vec" where
  "flatten_player player = flatten_filter_none (map Some player) player True False"

text \<open>The write-back of every player: \<^verbatim>\<open>zip\<close> stops at the shorter list, and a failure
  leaves the remaining players untouched.\<close>

fun write_back_all :: "param list list \<Rightarrow> vec list \<Rightarrow> param list list \<times> error option" where
  "write_back_all (player # players) (mapped_flattened # mapped_list) =
     (case write_back player mapped_flattened 0 of
        (player', Some e) \<Rightarrow> (player' # players, Some e)
      | (player', None) \<Rightarrow>
          (case write_back_all players mapped_list of
             (players', e) \<Rightarrow> (player' # players', e)))"
| "write_back_all players _ = (players, None)"

text \<open>
  Parameter \<open>k\<close> of a player holding its slice of a vector: the elements that start at
  the sum of the element counts of the parameters before it, as many as it has elements
  (fewer when the vector ends before).
\<close>

definition sliced :: "param list \<Rightarrow> vec \<Rightarrow> nat \<Rightarrow> param" where
  "sliced player mapped_flattened k =
     (player ! k)\<lparr>data := take (numel (player ! k))
                            (drop (sum_list (map numel (take k player))) mapped_flattened)\<rparr>"

section \<open>Elementwise tensor operations\<close>

text \<open>
  Binary operations on one-dimensional tensors follow torch's broadcasting: equal
  lengths combine elementwise, a one-element operand is repeated, anything else raises.
  An in-place operation (\<^verbatim>\<open>a += b\<close>, \<^verbatim>\<open>a.sub_(b, alpha=..)\<close>) keeps the shape of its
  target, so only the other operand may be repeated.
\<close>

definition zeros_like :: "vec \<Rightarrow> vec" where
  "zeros_like v = replicate (length v) 0"

definition bcast2 :: "(real \<Rightarrow> real \<Rightarrow> real) \<Rightarrow> vec \<Rightarrow> vec \<Rightarrow> error + vec" where
  "bcast2 f xs ys =
     (if length xs = length ys then Inr (map2 f xs ys)
      else if length ys = 1 then Inr (map (\<lambda>x. f x (hd ys)) xs)
      else if length xs = 1 then Inr (map (\<lambda>y. f (hd xs) y) ys)
      else Inl RuntimeError)"

definition inplace2 :: "(real \<Rightarrow> real \<Rightarrow> real) \<Rightarrow> vec \<Rightarrow> vec \<Rightarrow> error + vec" where
  "inplace2 f xs ys =
     (if length ys = length xs then Inr (map2 f xs ys)
      else if length ys = 1 then Inr (map (\<lambda>x. f x (hd ys)) xs)
      else Inl RuntimeError)"

text \<open>\<^verbatim>\<open>torch.dot\<close> wants two one-dimensional tensors of one size.\<close>

definition dot :: "vec \<Rightarrow> vec \<Rightarrow> error + real" where
  "dot a b = (if length a = length b then Inr (sum_list (map2 (*) a b)) else Inl RuntimeError)"

text \<open>Loops that stop at the first exception.\<close>

fun foldE :: "('a \<Rightarrow> 's \<Rightarrow> error + 's) \<Rightarrow> 'a list \<Rightarrow> 's \<Rightarrow> error + 's" where
  "foldE f [] s = Inr s"
| "foldE f (x # xs) s = bindE (f x s) (foldE f xs)"

fun mapE :: "('a \<Rightarrow> error + 'b) \<Rightarrow> 'a list \<Rightarrow> error + 'b list" where
  "mapE f [] = Inr []"
| "mapE f (x # xs) = bindE (f x) (\<lambda>y. bindE (mapE f xs) (\<lambda>ys. Inr (y # ys)))"

definition enumerate_from0 :: "'a list \<Rightarrow> (nat \<times> 'a) list" where
  "enumerate_from0 xs = zip [0..<length xs] xs"

text \<open>\<^verbatim>\<open>sum(torch.dot(e1, e2) for e1, e2 in zip(xs, ys))\<close>: one joint scalar over all
  players.\<close>

definition sum_dots :: "vec list \<Rightarrow> vec list \<Rightarrow> error + real" where
  "sum_dots xs ys = bindE (mapE (\<lambda>(e1, e2). dot e1 e2) (zip xs ys)) (\<lambda>ds. Inr (sum_list ds))"

text \<open>The \<^verbatim>\<open>torch._foreach_*\<close> operations: the tensor lists must hold at least one
  tensor and the same number of tensors; each pair is combined in place or out of
  place.\<close>

definition foreach_inplace :: "(real \<Rightarrow> real \<Rightarrow> real) \<Rightarrow> vec list \<Rightarrow> vec list \<Rightarrow> error + vec list" where
  "foreach_inplace f xs ys =
     (if xs = [] \<or> length xs \<noteq> length ys then Inl RuntimeError
      else mapE (\<lambda>(x, y). inplace2 f x y) (zip xs ys))"

definition foreach_new :: "(real \<Rightarrow> real \<Rightarrow> real) \<Rightarrow> vec list \<Rightarrow> vec list \<Rightarrow> error + vec list" where
  "foreach_new f xs ys =
     (if xs = [] \<or> length xs \<noteq> length ys then Inl RuntimeError
      else mapE (\<lambda>(x, y). bcast2 f x y) (zip xs ys))"

section \<open>Bregman potentials\<close>

text \<open>
  The dictionary \<^verbatim>\<open>{'Dx': .., 'Dx_inv': .., 'Dxx_vp': ..}\<close> as a record of three
  functions on flattened vectors. \<open>alpha\<close> is a Python number, applied to every element.
  Where the program would produce a non-finite float (a division by zero, the logarithm
  of a number that is not positive) the real-valued operation of HOL gives some real
  number instead; no property below rests on such a value.
\<close>

record bregman =
  Dx :: "vec \<Rightarrow> error + vec"
  Dx_inv :: "vec \<Rightarrow> error + vec"
  Dxx_vp :: "vec \<Rightarrow> vec \<Rightarrow> error + vec"

definition squared_distance :: "real \<Rightarrow> bregman" where
  "squared_distance alpha =
     \<lparr> Dx = (\<lambda>x_dual. Inr (map (\<lambda>a. a / alpha) x_dual)),
       Dx_inv = (\<lambda>x_dual. Inr (map (\<lambda>a. a * alpha) x_dual)),
       Dxx_vp = (\<lambda>x_primal vec. Inr (map (\<lambda>a. a * alpha) vec)) \<rparr>"

definition shannon_entropy :: "real \<Rightarrow> bregman" where
  "shannon_entropy alpha =
     \<lparr> Dx = (\<lambda>x_dual. Inr (map (\<lambda>a. exp (a / alpha)) x_dual)),
       Dx_inv = (\<lambda>x_primal. Inr (map (\<lambda>a. alpha * ln a) x_primal)),
       Dxx_vp = (\<lambda>x_primal vec.
          bindE (bcast2 (/) vec x_primal) (\<lambda>q. Inr (map (\<lambda>a. a * alpha) q))) \<rparr>"

section \<open>The differentiation engine\<close>

text \<open>
  \<^verbatim>\<open>torch.autograd.grad\<close> is outside the repository and enters as a parameter: three
  functions, one for each way the code calls it. \<open>'l\<close> is the type of objectives
  (scalar tensors with their graph), \<open>'d\<close> the type of the elements of a gradient that
  still carries its graph (\<^verbatim>\<open>create_graph=True\<close>). Each call returns one optional
  tensor for each input (\<^verbatim>\<open>allow_unused=True\<close>) or raises.
\<close>

record ('l, 'd) autograd =
  grad_values :: "'l \<Rightarrow> param list \<Rightarrow> error + real tensor option list"
  grad_graph :: "'l \<Rightarrow> param list \<Rightarrow> error + 'd tensor option list"
  grad_vjp :: "'d list \<Rightarrow> param list \<Rightarrow> vec \<Rightarrow> error + real tensor option list"

section \<open>The meta-matrix operator\<close>

text \<open>
  The body of the inner loop of \<^verbatim>\<open>avp\<close> for row \<open>i\<close> and column \<open>j\<close>. An augmented
  assignment \<^verbatim>\<open>prod_list[i] += e\<close> reads \<^verbatim>\<open>prod_list[i]\<close>, evaluates \<open>e\<close>, adds in place
  and stores the result.
\<close>

definition avp_body ::
  "('l, 'd::{zero,uminus}) autograd \<Rightarrow> 'l list \<Rightarrow> vec list \<Rightarrow> bregman \<Rightarrow> bool
     \<Rightarrow> nat \<Rightarrow> param list \<Rightarrow> nat \<times> param list \<times> vec \<Rightarrow> vec list \<Rightarrow> error + vec list" where
  "avp_body E hessian_loss_list player_list_flattened B transposed i row_params jcv prod_lst =
     (case jcv of (j, col_params, vector_elem) \<Rightarrow>
      if i = j then
        bindE (nthE prod_lst i) (\<lambda>acc.
        bindE (nthE player_list_flattened i) (\<lambda>pf.
        bindE (Dxx_vp B pf vector_elem) (\<lambda>d.
        bindE (inplace2 (+) acc d) (\<lambda>acc'.
        Inr (prod_lst[i := acc'])))))
      else
        bindE (nthE hessian_loss_list (if \<not> transposed then i else j)) (\<lambda>loss.
        bindE (grad_graph E loss col_params) (\<lambda>grad_raw.
        bindE (flatten_filter_none grad_raw col_params False False) (\<lambda>grad_flattened.
        bindE (grad_vjp E grad_flattened row_params vector_elem) (\<lambda>hvp_raw.
        bindE (flatten_filter_none hvp_raw row_params False False) (\<lambda>hvp_flattened.
        bindE (nthE prod_lst i) (\<lambda>acc.
        bindE (inplace2 (+) acc hvp_flattened) (\<lambda>acc'.
        Inr (prod_lst[i := acc'])))))))))"

definition avp ::
  "('l, 'd::{zero,uminus}) autograd \<Rightarrow> 'l list \<Rightarrow> param list list \<Rightarrow> vec list \<Rightarrow> vec list
     \<Rightarrow> bregman \<Rightarrow> bool \<Rightarrow> error + vec list" where
  "avp E hessian_loss_list player_list player_list_flattened vector_list_flattened B transposed =
     foldE (\<lambda>(i, row_params).
              foldE (avp_body E hessian_loss_list player_list_flattened B transposed i row_params)
                (enumerate_from0 (zip player_list vector_list_flattened)))
       (enumerate_from0 player_list)
       (map zeros_like vector_list_flattened)"

text \<open>\<^verbatim>\<open>atvp\<close>: the first-order gradients are computed once, before the double loop, and
  the inner loop runs over the vectors alone.\<close>

definition col_grads ::
  "('l, 'd::{zero,uminus}) autograd \<Rightarrow> 'l list \<Rightarrow> param list list \<Rightarrow> error + 'd list list" where
  "col_grads E hessian_loss_list player_list =
     mapE (\<lambda>(j, col_params).
             bindE (nthE hessian_loss_list j) (\<lambda>loss.
             bindE (grad_graph E loss col_params) (\<lambda>grad_raw.
             flatten_filter_none grad_raw col_params False False)))
       (enumerate_from0 player_list)"

definition atvp_body ::
  "('l, 'd::{zero,uminus}) autograd \<Rightarrow> 'd list list \<Rightarrow> vec list \<Rightarrow> bregman
     \<Rightarrow> nat \<Rightarrow> param list \<Rightarrow> nat \<times> vec \<Rightarrow> vec list \<Rightarrow> error + vec list" where
  "atvp_body E col_grads_flattened player_list_flattened B i row_params jv prod_lst =
     (case jv of (j, vector_elem) \<Rightarrow>
      if i = j then
        bindE (nthE prod_lst i) (\<lambda>acc.
        bindE (nthE player_list_flattened i) (\<lambda>pf.
        bindE (Dxx_vp B pf vector_elem) (\<lambda>d.
        bindE (inplace2 (+) acc d) (\<lambda>acc'.
        Inr (prod_lst[i := acc'])))))
      else
        bindE (nthE col_grads_flattened j) (\<lambda>grad_flattened.
        bindE (grad_vjp E grad_flattened row_params vector_elem) (\<lambda>hvp_raw.
        bindE (flatten_filter_none hvp_raw row_params False False) (\<lambda>hvp_flattened.
        bindE (nthE prod_lst i) (\<lambda>acc.
        bindE (inplace2 (+) acc hvp_flattened) (\<lambda>acc'.
        Inr (prod_lst[i := acc'])))))))"

definition atvp ::
  "('l, 'd::{zero,uminus}) autograd \<Rightarrow> 'l list \<Rightarrow> param list list \<Rightarrow> vec list \<Rightarrow> vec list
     \<Rightarrow> bregman \<Rightarrow> error + vec list" where
  "atvp E hessian_loss_list player_list player_list_flattened vector_list_flattened B =
     bindE (col_grads E hessian_loss_list player_list) (\<lambda>col_grads_flattened.
       foldE (\<lambda>(i, row_params).
                foldE (atvp_body E col_grads_flattened player_list_flattened B i row_params)
                  (enumerate_from0 vector_list_flattened))
         (enumerate_from0 player_list)
         (map zeros_like vector_list_flattened))"

section \<open>The matrix-free conjugate-gradient solver\<close>

text \<open>The right-hand side \<open>b\<close>: the negated, flattened gradient of each player's own
  objective.\<close>

definition neg_grads ::
  "('l, 'd) autograd \<Rightarrow> 'l list \<Rightarrow> param list list \<Rightarrow> error + vec list" where
  "neg_grads E grad_loss_list player_list =
     mapE (\<lambda>(loss, param_tensors).
             bindE (grad_values E loss param_tensors) (\<lambda>grad_raw.
             flatten_filter_none grad_raw param_tensors True True))
       (zip grad_loss_list player_list)"

record cg_state =
  st_x :: "vec list"
  st_r :: "vec list"
  st_p :: "vec list"
  st_rdotr :: real

text \<open>
  Everything before the early-exit test: \<open>r = A\<^sup>T b\<close>, the relative threshold, and, when a
  guess is given, \<open>r = A\<^sup>T b - A\<^sup>T A x\<close>. The result is the starting vector, the residual
  and \<^verbatim>\<open>residual_tol\<close>.
\<close>

definition cg_init ::
  "('l, 'd::{zero,uminus}) autograd \<Rightarrow> 'l list \<Rightarrow> 'l list \<Rightarrow> param list list \<Rightarrow> vec list
     \<Rightarrow> vec list option \<Rightarrow> bregman \<Rightarrow> real \<Rightarrow> error + (vec list \<times> vec list \<times> real)" where
  "cg_init E grad_loss_list hessian_loss_list player_list player_list_flattened
       vector_list_flattened B tol =
     bindE (neg_grads E grad_loss_list player_list) (\<lambda>b.
     bindE (avp E hessian_loss_list player_list player_list_flattened b B True) (\<lambda>r.
     bindE (sum_dots r r) (\<lambda>norm_At_b.
     let residual_tol = tol * norm_At_b in
     (case vector_list_flattened of
        None \<Rightarrow> Inr (map zeros_like player_list_flattened, r, residual_tol)
      | Some x \<Rightarrow>
          bindE (avp E hessian_loss_list player_list player_list_flattened x B False) (\<lambda>A_x.
          bindE (avp E hessian_loss_list player_list player_list_flattened A_x B True) (\<lambda>At_A_x.
          bindE (foreach_inplace (-) r At_A_x) (\<lambda>r'.
          Inr (x, r', residual_tol))))))))"

text \<open>
  One pass through the body of the \<^verbatim>\<open>for\<close> loop; the boolean says whether the pass
  ended in \<^verbatim>\<open>break\<close>. Division is the division of the reals: a zero denominator, which
  gives a non-finite float in the program, is outside what this model describes. With
  no residual block at all the pass still fails, at the first \<^verbatim>\<open>torch._foreach_add_\<close>,
  which refuses an empty tensor list.
\<close>

definition cg_body ::
  "('l, 'd::{zero,uminus}) autograd \<Rightarrow> 'l list \<Rightarrow> param list list \<Rightarrow> vec list \<Rightarrow> bregman
     \<Rightarrow> real \<Rightarrow> real \<Rightarrow> cg_state \<Rightarrow> error + (bool \<times> cg_state)" where
  "cg_body E hessian_loss_list player_list player_list_flattened B residual_tol atol st =
     bindE (avp E hessian_loss_list player_list player_list_flattened (st_p st) B False) (\<lambda>A_p.
     bindE (avp E hessian_loss_list player_list player_list_flattened A_p B True) (\<lambda>At_A_p.
     bindE (sum_dots (st_p st) At_A_p) (\<lambda>pAp.
     let alpha = st_rdotr st / pAp in
     bindE (foreach_inplace (\<lambda>a c. a + alpha * c) (st_x st) (st_p st)) (\<lambda>x'.
     bindE (foreach_inplace (\<lambda>a c. a - alpha * c) (st_r st) At_A_p) (\<lambda>r'.
     bindE (sum_dots r' r') (\<lambda>new_rdotr.
     if new_rdotr < atol \<or> new_rdotr < residual_tol
     then Inr (True, st\<lparr>st_x := x', st_r := r'\<rparr>)
     else
       let beta = new_rdotr / st_rdotr st in
       bindE (foreach_new (\<lambda>a c. a + beta * c) r' (st_p st)) (\<lambda>p'.
       Inr (False, \<lparr>st_x = x', st_r = r', st_p = p', st_rdotr = new_rdotr\<rparr>))))))))"

text \<open>
  \<^verbatim>\<open>for i in range(n_steps)\<close>: the loop variable is carried along as an optional value,
  unbound (\<open>None\<close>) until the first pass binds it.
\<close>

fun cg_for ::
  "(cg_state \<Rightarrow> error + (bool \<times> cg_state)) \<Rightarrow> nat list \<Rightarrow> nat option \<Rightarrow> cg_state
     \<Rightarrow> error + (nat option \<times> cg_state)" where
  "cg_for body [] i st = Inr (i, st)"
| "cg_for body (k # ks) i st =
     bindE (body st) (\<lambda>(brk, st').
       if brk then Inr (Some k, st') else cg_for body ks (Some k) st')"

definition metamatrix_conjugate_gradient ::
  "('l, 'd::{zero,uminus}) autograd \<Rightarrow> 'l list \<Rightarrow> 'l list \<Rightarrow> param list list \<Rightarrow> vec list
     \<Rightarrow> vec list option \<Rightarrow> bregman \<Rightarrow> int \<Rightarrow> real \<Rightarrow> real \<Rightarrow> error + (vec list \<times> nat)" where
  "metamatrix_conjugate_gradient E grad_loss_list hessian_loss_list player_list
       player_list_flattened vector_list_flattened B n_steps tol atol =
     bindE (cg_init E grad_loss_list hessian_loss_list player_list player_list_flattened
              vector_list_flattened B tol) (\<lambda>(x, r, residual_tol).
     bindE (sum_dots r r) (\<lambda>rdotr0.
     if rdotr0 < residual_tol \<or> rdotr0 < atol then Inr (x, 0)
     else
       bindE (cg_for (cg_body E hessian_loss_list player_list player_list_flattened B
                        residual_tol atol)
                [0..<nat n_steps] None \<lparr>st_x = x, st_r = r, st_p = r, st_rdotr = rdotr0\<rparr>) (\<lambda>(i, st).
       case i of None \<Rightarrow> Inl UnboundLocalError | Some i \<Rightarrow> Inr (st_x st, i + 1))))"

section \<open>The exponential map\<close>

text \<open>
  \<^verbatim>\<open>exp_map\<close> evaluates \<open>Dx_inv\<close>, then \<open>Dxx_vp\<close>, adds the two (out of place, with
  broadcasting) and applies \<open>Dx\<close>, for each pair of \<^verbatim>\<open>zip\<close>. Its parameter \<^verbatim>\<open>in_place\<close>
  is never read.
\<close>

definition exp_map :: "vec list \<Rightarrow> vec list \<Rightarrow> bregman \<Rightarrow> error + vec list" where
  "exp_map player_list_flattened nash_list_flattened B =
     mapE (\<lambda>(param, nash).
             bindE (Dx_inv B param) (\<lambda>a.
             bindE (Dxx_vp B param nash) (\<lambda>c.
             bindE (bcast2 (+) a c) (\<lambda>s. Dx B s))))
       (zip player_list_flattened nash_list_flattened)"

section \<open>An engine for objectives given by their derivatives\<close>

text \<open>
  An instance of the engine, exact on objectives that are quadratic in the parameters:
  an objective is given by the elements of the parameters it is computed from (its
  leaves, by parameter name and flat position), its first derivatives at the current
  point and its (constant) second derivatives. An element of a gradient that was
  computed with \<^verbatim>\<open>create_graph=True\<close> is a linear form \<open>lin\<close>: the row of its own
  derivatives, and a flag that tells whether its tensor carries a graph. The gradient
  with respect to a parameter carries a graph when it still depends on some leaf, that
  is, when one of its second derivatives is not zero; the tensor that
  \<^verbatim>\<open>torch.zeros_like\<close> puts in the place of a missing gradient carries none.

  As \<^verbatim>\<open>torch.autograd.grad\<close> does, the engine refuses an empty list of inputs, an
  output that has no graph and a seed that does not have the size of the differentiated
  vector, and it answers \<open>None\<close> for an input the output does not depend on.
\<close>

datatype lin = Lin bool "nat \<times> nat \<Rightarrow> real"

fun has_graph :: "lin \<Rightarrow> bool" where
  "has_graph (Lin g f) = g"

fun coeff :: "lin \<Rightarrow> nat \<times> nat \<Rightarrow> real" where
  "coeff (Lin g f) = f"

instantiation lin :: "{zero, uminus}"
begin

definition zero_lin :: lin where
  "zero_lin = Lin False (\<lambda>_. 0)"

definition uminus_lin :: "lin \<Rightarrow> lin" where
  "uminus_lin l = Lin (has_graph l) (\<lambda>a. - coeff l a)"

instance ..

end

record jet =
  jet_leaves :: "(nat \<times> nat) list"
  jet_grad :: "nat \<times> nat \<Rightarrow> real"
  jet_hess :: "nat \<times> nat \<Rightarrow> nat \<times> nat \<Rightarrow> real"

definition jet_uses :: "jet \<Rightarrow> param \<Rightarrow> bool" where
  "jet_uses loss p = list_ex (\<lambda>a. fst a = pname p) (jet_leaves loss)"

definition jet_curved :: "jet \<Rightarrow> param \<Rightarrow> bool" where
  "jet_curved loss p =
     list_ex (\<lambda>e. list_ex (\<lambda>b. jet_hess loss (pname p, e) b \<noteq> 0) (jet_leaves loss))
       [0..<numel p]"

definition lin_uses :: "lin list \<Rightarrow> param \<Rightarrow> bool" where
  "lin_uses outputs p =
     list_ex (\<lambda>e. list_ex (\<lambda>g. coeff g (pname p, e) \<noteq> 0) outputs) [0..<numel p]"

definition jet_engine :: "(jet, lin) autograd" where
  "jet_engine =
     \<lparr> grad_values = (\<lambda>loss inputs.
          if inputs = [] \<or> jet_leaves loss = [] then Inl RuntimeError
          else Inr (map (\<lambda>p.
            if jet_uses loss p
            then Some \<lparr>shape = shape p,
                       data = map (\<lambda>e. jet_grad loss (pname p, e)) [0..<numel p]\<rparr>
            else None) inputs)),
       grad_graph = (\<lambda>loss inputs.
          if inputs = [] \<or> jet_leaves loss = [] then Inl RuntimeError
          else Inr (map (\<lambda>p.
            if jet_uses loss p
            then Some \<lparr>shape = shape p,
                       data = map (\<lambda>e. Lin (jet_curved loss p) (jet_hess loss (pname p, e)))
                                [0..<numel p]\<rparr>
            else None) inputs)),
       grad_vjp = (\<lambda>outputs inputs seed.
          if inputs = [] \<or> length seed \<noteq> length outputs \<or> \<not> list_ex has_graph outputs
          then Inl RuntimeError
          else Inr (map (\<lambda>p.
            if lin_uses outputs p
            then Some \<lparr>shape = shape p,
                       data = map (\<lambda>e. sum_list (map2 (\<lambda>s g. s * coeff g (pname p, e)) seed outputs))
                                [0..<numel p]\<rparr>
            else None) inputs)) \<rparr>"

section \<open>The meta-matrix product, block by block\<close>

text \<open>
  A second description of the product, one output block at a time, to compare with the
  double loop of \<^verbatim>\<open>avp\<close>. \<open>hvp_block\<close> is the two-stage differentiation: the
  first-order gradient of an objective with respect to the column parameters (keeping
  the graph), then the vector-Jacobian product of that gradient against the row
  parameters, seeded by a vector. \<open>meta_product\<close> adds, for output block \<open>i\<close>, the
  Bregman term on the diagonal and a given block for every other column, in column order.
\<close>

definition hvp_block ::
  "('l, 'd::{zero,uminus}) autograd \<Rightarrow> 'l \<Rightarrow> param list \<Rightarrow> param list \<Rightarrow> vec \<Rightarrow> error + vec" where
  "hvp_block E loss col_params row_params seed =
     bindE (grad_graph E loss col_params) (\<lambda>grad_raw.
     bindE (flatten_filter_none grad_raw col_params False False) (\<lambda>grad_flattened.
     bindE (grad_vjp E grad_flattened row_params seed) (\<lambda>hvp_raw.
     flatten_filter_none hvp_raw row_params False False)))"

definition meta_product ::
  "(nat \<Rightarrow> nat \<Rightarrow> error + vec) \<Rightarrow> vec list \<Rightarrow> vec list \<Rightarrow> bregman \<Rightarrow> nat \<Rightarrow> error + vec list" where
  "meta_product block player_list_flattened v B n =
     mapE (\<lambda>i.
        foldE (\<lambda>j acc.
                 bindE (if i = j
                        then bindE (nthE player_list_flattened i) (\<lambda>pf. Dxx_vp B pf (v ! i))
                        else block i j)
                   (\<lambda>t. inplace2 (+) acc t))
          [0..<n] (zeros_like (v ! i)))
       [0..<n]"

text \<open>
  The off-diagonal block as the specification words it: the gradient of player \<open>j\<close>'s
  objective with respect to player \<open>j\<close>'s parameters, differentiated against player
  \<open>i\<close>'s parameters, seeded by \<open>v[j]\<close>, or by \<open>v[i]\<close> when transposed.
\<close>

definition block_as_specified ::
  "('l, 'd::{zero,uminus}) autograd \<Rightarrow> 'l list \<Rightarrow> param list list \<Rightarrow> vec list \<Rightarrow> bool
     \<Rightarrow> nat \<Rightarrow> nat \<Rightarrow> error + vec" where
  "block_as_specified E hessian_loss_list player_list v transposed i j =
     bindE (nthE hessian_loss_list j) (\<lambda>loss.
       hvp_block E loss (player_list ! j) (player_list ! i) (if transposed then v ! i else v ! j))"

text \<open>
  The off-diagonal block with the objective and the seed the loop body uses: the
  objective of player \<open>i\<close>, or of player \<open>j\<close> when transposed, differentiated with respect
  to player \<open>j\<close>'s parameters and then against player \<open>i\<close>'s, always seeded by \<open>v[j]\<close>.
\<close>

definition block_as_coded ::
  "('l, 'd::{zero,uminus}) autograd \<Rightarrow> 'l list \<Rightarrow> param list list \<Rightarrow> vec list \<Rightarrow> bool
     \<Rightarrow> nat \<Rightarrow> nat \<Rightarrow> error + vec" where
  "block_as_coded E hessian_loss_list player_list v transposed i j =
     bindE (nthE hessian_loss_list (if transposed then j else i)) (\<lambda>loss.
       hvp_block E loss (player_list ! j) (player_list ! i) (v ! j))"

section \<open>Observing the solver\<close>

text \<open>The joint squared norm of a list of blocks: one scalar for the whole game.\<close>

definition sq_norm :: "vec list \<Rightarrow> real" where
  "sq_norm r = sum_list (map (\<lambda>r_elem. sum_list (map (\<lambda>a. a * a) r_elem)) r)"

text \<open>
  The values \<^verbatim>\<open>new_rdotr\<close> takes in at most \<open>n\<close> passes of the loop from a given state, in
  order: the history of the joint squared residual. It ends with the pass that breaks,
  with an exception, or after \<open>n\<close> passes.
\<close>

fun cg_residuals :: "(cg_state \<Rightarrow> error + (bool \<times> cg_state)) \<Rightarrow> nat \<Rightarrow> cg_state \<Rightarrow> real list" where
  "cg_residuals body 0 st = []"
| "cg_residuals body (Suc n) st =
     (case body st of
        Inl e \<Rightarrow> []
      | Inr (brk, st') \<Rightarrow>
          sq_norm (st_r st') # (if brk then [] else cg_residuals body n st'))"

section \<open>Games on which nothing raises\<close>

text \<open>
  A list of optional gradients fits a list of parameters when there is one entry for
  each parameter and every gradient present has the element count of its parameter.
\<close>

definition fits :: "('a, 'b) tensor_scheme option list \<Rightarrow> param list \<Rightarrow> bool" where
  "fits gs inputs =
     list_all2 (\<lambda>g p. case g of None \<Rightarrow> True | Some t \<Rightarrow> length (data t) = numel p) gs inputs"

text \<open>
  A regular game: at least one player, every player with at least one parameter tensor,
  one objective of each kind and one flattened parameter vector for each player, a
  differentiation engine that answers every request of the solver (first-order gradients
  that fit, and for each pair of distinct players the two-stage product of either
  player's objective, for every seed of the column player's size, with a vector of the
  row player's size), and a potential whose second-derivative product keeps the length
  of the vector.
\<close>

definition regular_game ::
  "('l, 'd::{zero,uminus}) autograd \<Rightarrow> 'l list \<Rightarrow> 'l list \<Rightarrow> param list list \<Rightarrow> vec list
     \<Rightarrow> bregman \<Rightarrow> bool" where
  "regular_game E grad_loss_list hessian_loss_list player_list player_list_flattened B =
     (player_list \<noteq> []
      \<and> length grad_loss_list = length player_list
      \<and> length hessian_loss_list = length player_list
      \<and> length player_list_flattened = length player_list
      \<and> (\<forall>i < length player_list.
            player_list ! i \<noteq> []
            \<and> length (player_list_flattened ! i) = sum_list (map numel (player_list ! i))
            \<and> (\<exists>gs. grad_values E (grad_loss_list ! i) (player_list ! i) = Inr gs
                      \<and> fits gs (player_list ! i))
            \<and> (\<forall>v. length v = length (player_list_flattened ! i) \<longrightarrow>
                  (\<exists>d. Dxx_vp B (player_list_flattened ! i) v = Inr d \<and> length d = length v))
            \<and> (\<forall>j < length player_list. i \<noteq> j \<longrightarrow>
                  (\<forall>seed. length seed = length (player_list_flattened ! j) \<longrightarrow>
                     (\<exists>h. hvp_block E (hessian_loss_list ! i) (player_list ! j) (player_list ! i) seed
                            = Inr h \<and> length h = length (player_list_flattened ! i))
                     \<and> (\<exists>h. hvp_block E (hessian_loss_list ! j) (player_list ! j) (player_list ! i) seed
                            = Inr h \<and> length h = length (player_list_flattened ! i))))))"

text \<open>A warm-start guess has the shape of the game when it has one block for each player,
  each as long as the player's flattened parameters.\<close>

definition guess_fits :: "vec list option \<Rightarrow> vec list \<Rightarrow> bool" where
  "guess_fits vector_list_flattened player_list_flattened =
     (case vector_list_flattened of
        None \<Rightarrow> True
      | Some x \<Rightarrow> map length x = map length player_list_flattened)"

text \<open>
  The operator of the normal equations, \<open>x \<mapsto> A\<^sup>T (A x)\<close>, as the solver computes it: two
  calls of \<open>avp\<close>. \<open>axpy a x p\<close> is \<open>x + a * p\<close>, block by block and element by element.
  The operator is linear on the game when it commutes with \<open>axpy\<close> on vectors that have
  the shape of the flattened parameters.
\<close>

definition normal_op ::
  "('l, 'd::{zero,uminus}) autograd \<Rightarrow> 'l list \<Rightarrow> param list list \<Rightarrow> vec list \<Rightarrow> bregman
     \<Rightarrow> vec list \<Rightarrow> error + vec list" where
  "normal_op E hessian_loss_list player_list player_list_flattened B x =
     bindE (avp E hessian_loss_list player_list player_list_flattened x B False) (\<lambda>A_x.
       avp E hessian_loss_list player_list player_list_flattened A_x B True)"

definition axpy :: "real \<Rightarrow> vec list \<Rightarrow> vec list \<Rightarrow> vec list" where
  "axpy a x p = map2 (map2 (\<lambda>u w. u + a * w)) x p"


section \<open>Concrete inputs\<close>

definition demo_player :: "param list" where
  "demo_player = [\<lparr>shape = [2, 2], data = [1, 2, 3, 4], pname = 0\<rparr>,
                  \<lparr>shape = [3], data = [5, 6, 7], pname = 1\<rparr>]"

text \<open>
  A two-player game with one scalar parameter each, \<open>x = 2\<close> and \<open>y = 7\<close>, and the
  objectives \<open>x * y\<close> for the first player and \<open>5 * x * y\<close> for the second.
\<close>

definition bilinear :: "real \<Rightarrow> jet" where
  "bilinear c =
     \<lparr> jet_leaves = [(0, 0), (1, 0)],
       jet_grad = (\<lambda>a. if a = (0, 0) then c * 7 else if a = (1, 0) then c * 2 else 0),
       jet_hess = (\<lambda>a b. if (a = (0, 0) \<and> b = (1, 0)) \<or> (a = (1, 0) \<and> b = (0, 0)) then c else 0) \<rparr>"

definition two_players :: "param list list" where
  "two_players = [[\<lparr>shape = [1], data = [2], pname = 0\<rparr>],
                  [\<lparr>shape = [1], data = [7], pname = 1\<rparr>]]"

definition two_losses :: "jet list" where
  "two_losses = [bilinear 1, bilinear 5]"

text \<open>The objective \<open>x + y\<close> on the same two parameters: linear in each of them.\<close>

definition additive :: jet where
  "additive =
     \<lparr> jet_leaves = [(0, 0), (1, 0)],
       jet_grad = (\<lambda>a. if a = (0, 0) \<or> a = (1, 0) then 1 else 0),
       jet_hess = (\<lambda>a b. 0) \<rparr>"

text \<open>
  A one-player game under the Shannon-entropy potential: one parameter tensor
  \<open>x = [1/2, 1/8, 1/16]\<close> and the linear objective \<open>-(x\<^sub>0 + x\<^sub>1 / 8 + x\<^sub>2 / 64)\<close>.
\<close>

definition entropy_player :: "param list list" where
  "entropy_player = [[\<lparr>shape = [3], data = [1 / 2, 1 / 8, 1 / 16], pname = 0\<rparr>]]"

definition entropy_flat :: "vec list" where
  "entropy_flat = [[1 / 2, 1 / 8, 1 / 16]]"

definition entropy_loss :: "jet list" where
  "entropy_loss =
     [\<lparr> jet_leaves = [(0, 0), (0, 1), (0, 2)],
        jet_grad = (\<lambda>a. if a = (0, 0) then - 1 else if a = (0, 1) then - (1 / 8)
                          else if a = (0, 2) then - (1 / 64) else 0),
        jet_hess = (\<lambda>a b. 0) \<rparr>]"

section \<open>Basic facts about errors and loops\<close>

lemma bindE_simps [simp]:
  "bindE (Inl e) f = Inl e"
  "bindE (Inr x) f = f x"
  by (simp_all add: bindE_def)

lemma bindE_Inr_iff: "bindE m f = Inr y \<longleftrightarrow> (\<exists>x. m = Inr x \<and> f x = Inr y)"
  by (cases m) auto

lemma bindE_assoc: "bindE (bindE m f) g = bindE m (\<lambda>x. bindE (f x) g)"
  by (cases m) simp_all

lemma nthE_less [simp]: "i < length xs \<Longrightarrow> nthE xs i = Inr (xs ! i)"
  by (simp add: nthE_def)

lemma mapE_Inr_iff:
  "mapE f xs = Inr ys \<longleftrightarrow> length ys = length xs \<and> (\<forall>i < length xs. f (xs ! i) = Inr (ys ! i))"
proof (induction xs arbitrary: ys)
  case Nil
  then show ?case by auto
next
  case (Cons x xs)
  show ?case
  proof (cases ys)
    case Nil
    then show ?thesis by (auto simp: bindE_Inr_iff)
  next
    case (Cons y ys')
    show ?thesis
      unfolding Cons
      by (auto simp: bindE_Inr_iff Cons.IH[of ys'] nth_Cons split: nat.splits)
  qed
qed

lemma mapE_total:
  "(\<And>x. x \<in> set xs \<Longrightarrow> \<exists>y. f x = Inr y) \<Longrightarrow> \<exists>ys. mapE f xs = Inr ys"
proof (induction xs)
  case Nil
  then show ?case by simp
next
  case (Cons x xs)
  obtain y where y: "f x = Inr y" using Cons.prems by auto
  obtain ys where ys: "mapE f xs = Inr ys" using Cons by auto
  show ?case using y ys by simp
qed

lemma mapE_total_prop:
  assumes "\<And>x. x \<in> set xs \<Longrightarrow> \<exists>y. f x = Inr y \<and> Q x y"
  shows "\<exists>ys. mapE f xs = Inr ys \<and> length ys = length xs \<and> (\<forall>i < length xs. Q (xs ! i) (ys ! i))"
proof -
  obtain ys where ys: "mapE f xs = Inr ys"
    using mapE_total[of xs f] assms by blast
  have "Q (xs ! i) (ys ! i)" if i: "i < length xs" for i
  proof -
    have "f (xs ! i) = Inr (ys ! i)" using ys i by (simp add: mapE_Inr_iff)
    moreover obtain y where "f (xs ! i) = Inr y" "Q (xs ! i) y"
      using assms[OF nth_mem[OF i]] by auto
    ultimately show ?thesis by simp
  qed
  then show ?thesis using ys by (auto simp: mapE_Inr_iff)
qed

lemma mapE_cong:
  "(\<And>x. x \<in> set xs \<Longrightarrow> f x = g x) \<Longrightarrow> mapE f xs = mapE g xs"
  by (induction xs) simp_all

lemma foldE_cong:
  "(\<And>x s. x \<in> set xs \<Longrightarrow> f x s = g x s) \<Longrightarrow> foldE f xs s = foldE g xs s"
proof (induction xs arbitrary: s)
  case Nil
  then show ?case by simp
next
  case (Cons x xs)
  have "f x s = g x s" using Cons.prems by simp
  moreover have "foldE f xs = foldE g xs" using Cons by (intro ext) simp
  ultimately show ?case by simp
qed

lemma foldE_map: "foldE f (map h xs) s = foldE (\<lambda>x. f (h x)) xs s"
  by (induction xs arbitrary: s) (simp_all cong: sum.case_cong add: bindE_def)

lemma foldE_invariant:
  assumes "\<And>x s. x \<in> set xs \<Longrightarrow> I s \<Longrightarrow> \<exists>s'. f x s = Inr s' \<and> I s'" and "I s"
  shows "\<exists>s'. foldE f xs s = Inr s' \<and> I s'"
  using assms
proof (induction xs arbitrary: s)
  case Nil
  then show ?case by simp
next
  case (Cons x xs)
  obtain s1 where s1: "f x s = Inr s1" "I s1" using Cons.prems by (meson list.set_intros(1))
  have "\<exists>s'. foldE f xs s1 = Inr s' \<and> I s'"
    using Cons.IH[OF _ s1(2)] Cons.prems(1) by (meson list.set_intros(2))
  then show ?case using s1 by simp
qed

lemma upt2: "[0..<2] = [0, 1]" by (simp add: upt_rec)

lemma upt3: "[0..<3] = [0, 1, 2]" by (simp add: upt_rec)

lemma upt5: "[0..<5] = [0, 1, 2, 3, 4]" by (simp add: upt_rec)

section \<open>Properties of the vector utilities\<close>

lemma filtered_self: "filtered (map Some player) player = map data player"
  by (induction player) auto

lemma write_back_overwrites:
  "\<forall>p \<in> set player. wf_tensor p \<Longrightarrow>
   map (\<lambda>p. p\<lparr>data := []\<rparr>) targets = map (\<lambda>p. p\<lparr>data := []\<rparr>) player \<Longrightarrow>
   write_back targets (pre @ concat (map data player) @ post) (length pre) = (player, None)"
proof (induction player arbitrary: pre targets)
  case Nil
  then show ?case by simp
next
  case (Cons p player)
  then obtain t targets' where t: "targets = t # targets'" by (cases targets) auto
  have eq: "t\<lparr>data := []\<rparr> = p\<lparr>data := []\<rparr>"
    and rest: "map (\<lambda>p. p\<lparr>data := []\<rparr>) targets' = map (\<lambda>p. p\<lparr>data := []\<rparr>) player"
    using Cons.prems(2) t by simp_all
  have sh: "shape t = shape p" using eq by (metis tensor.select_convs(1) tensor.surjective tensor.update_convs(2))
  have tp: "t\<lparr>data := data p\<rparr> = p" using eq
    by (metis (no_types) tensor.update_convs(2) tensor.surjective tensor.select_convs(2) tensor.simps(5))
  have wf: "length (data p) = numel p" using Cons.prems(1) by (simp add: wf_tensor_def)
  have ih: "write_back targets' ((pre @ data p) @ concat (map data player) @ post) (length (pre @ data p)) = (player, None)"
    using Cons.IH[of targets' "pre @ data p"] Cons.prems(1) rest by simp
  show ?case using ih wf sh tp unfolding t by (simp add: numel_def)
qed

lemma length_concat_data:
  "\<forall>p \<in> set player. wf_tensor p \<Longrightarrow>
   length (concat (map data player)) = sum_list (map numel player)"
  by (induction player) (auto simp: wf_tensor_def)

lemma write_back_full:
  "idx + sum_list (map numel player) \<le> length m \<Longrightarrow>
   write_back player m idx
     = (map (\<lambda>k. (player ! k)\<lparr>data := take (numel (player ! k))
                      (drop (idx + sum_list (map numel (take k player))) m)\<rparr>) [0..<length player], None)"
proof (induction player arbitrary: idx)
  case Nil
  then show ?case by simp
next
  case (Cons p player)
  have a: "idx + numel p + sum_list (map numel player) \<le> length m" using Cons.prems by simp
  have l: "length (take (numel p) (drop idx m)) = prod_list (shape p)"
    using Cons.prems by (simp add: numel_def)
  show ?case using Cons.IH[OF a] l
    by (simp add: map_upt_Suc Let_def add.assoc del: upt_Suc)
qed

lemma write_back_short:
  "idx \<le> length m \<Longrightarrow> length m < idx + sum_list (map numel player) \<Longrightarrow>
   \<exists>k < length player.
      idx + sum_list (map numel (take k player)) \<le> length m
      \<and> length m < idx + sum_list (map numel (take (Suc k) player))
      \<and> write_back player m idx
          = (map (\<lambda>k. (player ! k)\<lparr>data := take (numel (player ! k))
                      (drop (idx + sum_list (map numel (take k player))) m)\<rparr>) [0..<k]
               @ drop k player, Some RuntimeError)"
proof (induction player arbitrary: idx)
  case Nil
  then show ?case by simp
next
  case (Cons p player)
  show ?case
  proof (cases "length m < idx + numel p")
    case True
    then have "length (take (numel p) (drop idx m)) \<noteq> prod_list (shape p)"
      using Cons.prems(1) by (simp add: numel_def)
    then have "write_back (p # player) m idx = (p # player, Some RuntimeError)"
      by (simp add: Let_def)
    then show ?thesis using True Cons.prems(1) by (intro exI[of _ 0]) simp
  next
    case False
    then have a: "idx + numel p \<le> length m" by simp
    have b: "length m < idx + numel p + sum_list (map numel player)" using Cons.prems(2) by simp
    obtain k where k: "k < length player"
      "idx + numel p + sum_list (map numel (take k player)) \<le> length m"
      "length m < idx + numel p + sum_list (map numel (take (Suc k) player))"
      "write_back player m (idx + numel p)
          = (map (\<lambda>k. (player ! k)\<lparr>data := take (numel (player ! k))
                      (drop (idx + numel p + sum_list (map numel (take k player))) m)\<rparr>) [0..<k]
               @ drop k player, Some RuntimeError)"
      using Cons.IH[OF a b] by blast
    have l: "length (take (numel p) (drop idx m)) = prod_list (shape p)"
      using a by (simp add: numel_def)
    show ?thesis
      using k l by (intro exI[of _ "Suc k"]) (simp add: map_upt_Suc Let_def add.assoc del: upt_Suc)
  qed
qed

text \<open>
  Claim C7. A player with at least one parameter tensor, each holding as many elements as
  its shape says, flattens to a vector whose length is the sum of the element counts, and
  the write-back of \<^verbatim>\<open>CMD.step\<close> applied to that vector (slicing by cumulative element
  counts and reshaping) gives every tensor its shape and its values back: whatever data
  the tensors written to hold before, they are the player's tensors afterwards.
\<close>

theorem flatten_write_back_roundtrip:
  assumes "player \<noteq> []" and "\<forall>p \<in> set player. wf_tensor p"
  shows "\<exists>v. flatten_player player = Inr v
           \<and> length v = sum_list (map numel player)
           \<and> (\<forall>targets. map (\<lambda>p. p\<lparr>data := []\<rparr>) targets = map (\<lambda>p. p\<lparr>data := []\<rparr>) player
                 \<longrightarrow> write_back targets v 0 = (player, None))"
proof -
  have f: "flatten_player player = Inr (concat (map data player))"
    using assms(1) by (simp add: flatten_player_def flatten_filter_none_def filtered_self cat_def bindE_def)
  have w: "write_back targets ([] @ concat (map data player) @ []) (length ([]::real list)) = (player, None)"
    if "map (\<lambda>p. p\<lparr>data := []\<rparr>) targets = map (\<lambda>p. p\<lparr>data := []\<rparr>) player" for targets
    using write_back_overwrites[OF assms(2) that] by blast
  show ?thesis using f w length_concat_data[OF assms(2)] by simp
qed

theorem flatten_write_back_roundtrip_witness:
  "flatten_player demo_player = Inr [1, 2, 3, 4, 5, 6, 7]
   \<and> length [1, 2, 3, 4, 5, 6, 7 :: real] = sum_list (map numel demo_player)
   \<and> write_back [\<lparr>shape = [2, 2], data = [0, 0, 0, 0], pname = 0\<rparr>,
                  \<lparr>shape = [3], data = [9, 9, 9], pname = 1\<rparr>] [1, 2, 3, 4, 5, 6, 7] 0
       = (demo_player, None)"
proof -
  have ne: "demo_player \<noteq> []" by (simp add: demo_player_def)
  have wf: "\<forall>p \<in> set demo_player. wf_tensor p"
    by (simp add: demo_player_def wf_tensor_def numel_def)
  have f: "flatten_player demo_player = Inr [1, 2, 3, 4, 5, 6, 7]"
    by (simp add: demo_player_def flatten_player_def flatten_filter_none_def cat_def bindE_def)
  have t: "map (\<lambda>p. p\<lparr>data := []\<rparr>) [\<lparr>shape = [2, 2], data = [0, 0, 0, 0], pname = 0\<rparr>,
                  \<lparr>shape = [3], data = [9, 9, 9 :: real], pname = 1\<rparr>]
      = map (\<lambda>p. p\<lparr>data := []\<rparr>) demo_player"
    by (simp add: demo_player_def)
  obtain v where v: "flatten_player demo_player = Inr v"
      "length v = sum_list (map numel demo_player)"
      "\<forall>targets. map (\<lambda>p. p\<lparr>data := []\<rparr>) targets = map (\<lambda>p. p\<lparr>data := []\<rparr>) demo_player
                 \<longrightarrow> write_back targets v 0 = (demo_player, None)"
    using flatten_write_back_roundtrip[OF ne wf] by blast
  have e: "v = [1, 2, 3, 4, 5, 6, 7]" using v(1) f by simp
  show ?thesis using f v(2) v(3)[rule_format, OF t] unfolding e by blast
qed

text \<open>
  Claim C9, as stated, fails: a vector longer than the player's element count is written
  back without any error, its surplus dropped.
\<close>

theorem write_back_long_counterexample:
  "length [1, 2, 3 :: real] \<noteq> sum_list (map numel [\<lparr>shape = [2], data = [0, 0], pname = 0\<rparr>])
   \<and> write_back [\<lparr>shape = [2], data = [0, 0], pname = 0\<rparr>] [1, 2, 3] 0
       = ([\<lparr>shape = [2], data = [1, 2], pname = 0\<rparr>], None)"
  by (simp add: numel_def)

text \<open>
  Claim C9, amended. When the vector is at least as long as the sum of the element
  counts, the write-back raises nothing: every tensor receives its slice of the leading
  elements and the surplus is never read. When the vector is shorter, the write-back
  raises the size-mismatch error at the first tensor \<open>k\<close> whose slice is cut off by the
  end of the vector; the tensors before it have received their slices, tensor \<open>k\<close> and
  the tensors after it are as they were.
\<close>

theorem write_back_outcome:
  "(sum_list (map numel player) \<le> length m \<longrightarrow>
      write_back player m 0 = (map (sliced player m) [0..<length player], None))
   \<and> (length m < sum_list (map numel player) \<longrightarrow>
      (\<exists>k < length player.
          sum_list (map numel (take k player)) \<le> length m
          \<and> length m < sum_list (map numel (take (Suc k) player))
          \<and> write_back player m 0
              = (map (sliced player m) [0..<k] @ drop k player, Some RuntimeError)))"
  using write_back_full[of 0 player m] write_back_short[of 0 m player]
  unfolding sliced_def by simp

theorem write_back_outcome_witness:
  "write_back demo_player [9, 8, 7, 6, 5, 4, 3, 2, 1] 0
     = ([\<lparr>shape = [2, 2], data = [9, 8, 7, 6], pname = 0\<rparr>,
         \<lparr>shape = [3], data = [5, 4, 3], pname = 1\<rparr>], None)
   \<and> (\<exists>k < length demo_player.
          sum_list (map numel (take k demo_player)) \<le> length [9, 8, 7, 6, 5 :: real]
          \<and> length [9, 8, 7, 6, 5 :: real] < sum_list (map numel (take (Suc k) demo_player))
          \<and> write_back demo_player [9, 8, 7, 6, 5] 0
              = (map (sliced demo_player [9, 8, 7, 6, 5]) [0..<k] @ drop k demo_player,
                 Some RuntimeError))
   \<and> write_back demo_player [9, 8, 7, 6, 5] 0
     = ([\<lparr>shape = [2, 2], data = [9, 8, 7, 6], pname = 0\<rparr>,
         \<lparr>shape = [3], data = [5, 6, 7], pname = 1\<rparr>], Some RuntimeError)"
proof -
  have n: "sum_list (map numel demo_player) = 7" by (simp add: demo_player_def numel_def)
  have a: "write_back demo_player [9, 8, 7, 6, 5, 4, 3, 2, 1] 0
     = (map (sliced demo_player [9, 8, 7, 6, 5, 4, 3, 2, 1]) [0..<length demo_player], None)"
    using write_back_outcome[of demo_player "[9, 8, 7, 6, 5, 4, 3, 2, 1]", THEN conjunct1] n by simp
  have a': "map (sliced demo_player [9, 8, 7, 6, 5, 4, 3, 2, 1]) [0..<length demo_player]
     = [\<lparr>shape = [2, 2], data = [9, 8, 7, 6], pname = 0\<rparr>,
         \<lparr>shape = [3], data = [5, 4, 3], pname = 1\<rparr>]"
    by (simp add: demo_player_def sliced_def numel_def upt2)
  have b: "\<exists>k < length demo_player.
          sum_list (map numel (take k demo_player)) \<le> length [9, 8, 7, 6, 5 :: real]
          \<and> length [9, 8, 7, 6, 5 :: real] < sum_list (map numel (take (Suc k) demo_player))
          \<and> write_back demo_player [9, 8, 7, 6, 5] 0
              = (map (sliced demo_player [9, 8, 7, 6, 5]) [0..<k] @ drop k demo_player,
                 Some RuntimeError)"
    using write_back_outcome[of demo_player "[9, 8, 7, 6, 5]", THEN conjunct2] n by simp
  have c: "write_back demo_player [9, 8, 7, 6, 5] 0
     = ([\<lparr>shape = [2, 2], data = [9, 8, 7, 6], pname = 0\<rparr>,
         \<lparr>shape = [3], data = [5, 6, 7], pname = 1\<rparr>], Some RuntimeError)"
    by (simp add: demo_player_def numel_def)
  show ?thesis using a a' b c by simp
qed

lemma filtered_split:
  "filtered gl pl = filtered (take k gl) (take k pl) @ filtered (drop k gl) (drop k pl)"
proof (induction gl pl arbitrary: k rule: filtered.induct)
  case (1 grad grad_list param param_list)
  then show ?case by (cases k) auto
qed simp_all

lemma filtered_None_at:
  assumes "k < length gl" "k < length pl" "gl ! k = None"
  shows "filtered gl pl = filtered (take k gl) (take k pl)
           @ replicate (numel (pl ! k)) 0 # filtered (drop (Suc k) gl) (drop (Suc k) pl)"
proof -
  have "drop k gl = None # drop (Suc k) gl" using assms by (metis Cons_nth_drop_Suc)
  moreover have "drop k pl = pl ! k # drop (Suc k) pl" using assms by (metis Cons_nth_drop_Suc)
  ultimately show ?thesis using filtered_split[of gl pl k] by simp
qed

text \<open>
  Claim C8. When the gradient list has \<^verbatim>\<open>None\<close> at position \<open>k\<close>, the call returns a
  vector (no error); the entries of that vector that follow the flattening of the first
  \<open>k\<close> gradients are \<open>numel\<close> zeros, where \<open>numel\<close> is the element count of parameter
  \<open>k\<close>; and with \<^verbatim>\<open>neg=True\<close> the result is the same vector with every element negated.
\<close>

theorem flatten_none_zero_block:
  assumes "k < length grad_list" and "k < length param_list" and "grad_list ! k = None"
  shows "\<exists>res. flatten_filter_none grad_list param_list detach False = Inr res
           \<and> take (numel (param_list ! k))
                (drop (length (concat (filtered (take k grad_list) (take k param_list)))) res)
               = replicate (numel (param_list ! k)) 0
           \<and> flatten_filter_none grad_list param_list detach True = Inr (map uminus res)"
  using filtered_None_at[OF assms]
  by (simp add: flatten_filter_none_def cat_def bindE_def)

theorem flatten_none_zero_block_witness:
  "flatten_filter_none [Some \<lparr>shape = [2, 2], data = [1, 2, 3, 4 :: real]\<rparr>, None] demo_player False False
     = Inr [1, 2, 3, 4, 0, 0, 0]
   \<and> take (numel (demo_player ! 1)) (drop 4 [1, 2, 3, 4, 0, 0, 0 :: real]) = [0, 0, 0]
   \<and> flatten_filter_none [Some \<lparr>shape = [2, 2], data = [1, 2, 3, 4 :: real]\<rparr>, None] demo_player False True
     = Inr [-1, -2, -3, -4, 0, 0, 0]"
proof -
  let ?gl = "[Some \<lparr>shape = [2, 2], data = [1, 2, 3, 4 :: real]\<rparr>, None]"
  have h1: "1 < length ?gl" by simp
  have h2: "1 < length demo_player" by (simp add: demo_player_def)
  have h3: "?gl ! 1 = None" by simp
  have f: "flatten_filter_none ?gl demo_player False False = Inr [1, 2, 3, 4, 0, 0, 0]"
    by (simp add: demo_player_def flatten_filter_none_def cat_def bindE_def numel_def eval_nat_numeral)
  from flatten_none_zero_block[OF h1 h2 h3, of False] f
  show ?thesis by (auto simp: demo_player_def numel_def eval_nat_numeral)
qed

section \<open>Properties of the exponential map\<close>

lemma bcast2_same_length: "length a = length c \<Longrightarrow> bcast2 f a c = Inr (map2 f a c)"
  by (simp add: bcast2_def)

lemma squared_cell:
  assumes "length param = length nash"
  shows "bindE (Dx_inv (squared_distance alpha) param) (\<lambda>a.
           bindE (Dxx_vp (squared_distance alpha) param nash) (\<lambda>c.
           bindE (bcast2 (+) a c) (\<lambda>s. Dx (squared_distance alpha) s)))
         = Inr (map2 (\<lambda>p d. (p * alpha + d * alpha) / alpha) param nash)"
proof -
  have "map (\<lambda>a. a / alpha) (map2 (+) (map (\<lambda>a. a * alpha) param) (map (\<lambda>a. a * alpha) nash))
      = map2 (\<lambda>p d. (p * alpha + d * alpha) / alpha) param nash"
    using assms by (intro nth_equalityI) simp_all
  then show ?thesis using assms by (simp add: squared_distance_def bcast2_same_length)
qed

lemma shannon_cell:
  assumes "length param = length nash"
  shows "bindE (Dx_inv (shannon_entropy alpha) param) (\<lambda>a.
           bindE (Dxx_vp (shannon_entropy alpha) param nash) (\<lambda>c.
           bindE (bcast2 (+) a c) (\<lambda>s. Dx (shannon_entropy alpha) s)))
         = Inr (map2 (\<lambda>p d. exp ((alpha * ln p + d / p * alpha) / alpha)) param nash)"
proof -
  have "map (\<lambda>a. exp (a / alpha))
          (map2 (+) (map (\<lambda>a. alpha * ln a) param) (map (\<lambda>a. a * alpha) (map2 (/) nash param)))
      = map2 (\<lambda>p d. exp ((alpha * ln p + d / p * alpha) / alpha)) param nash"
    using assms by (intro nth_equalityI) simp_all
  then show ?thesis using assms by (simp add: shannon_entropy_def bcast2_same_length)
qed

lemma mapE_zip_map2:
  assumes "length xs = length ys"
    and "\<And>i. i < length xs \<Longrightarrow> f (xs ! i, ys ! i) = Inr (g (xs ! i) (ys ! i))"
  shows "mapE f (zip xs ys) = Inr (map2 g xs ys)"
  using assms by (simp add: mapE_Inr_iff)

text \<open>
  Claim C6, as stated, fails: the two lists have one vector each, the dual vector is
  longer than the parameter vector, and under \<open>squared_distance 1\<close> the sum broadcasts, so
  the returned vector has the length of the dual vector. Under \<open>shannon_entropy 1\<close> lengths
  that do not broadcast make the call raise.
\<close>

theorem exp_map_broadcasts:
  "length [[1 :: real]] = length [[4, 6, 8 :: real]]
   \<and> exp_map [[1]] [[4, 6, 8]] (squared_distance 1) = Inr [[5, 7, 9]]
   \<and> length ([[5, 7, 9 :: real]] ! 0) \<noteq> length ([[1 :: real]] ! 0)
   \<and> exp_map [[1, 2]] [[4, 6, 8]] (shannon_entropy 1) = Inl RuntimeError"
  by (simp add: exp_map_def squared_distance_def shannon_entropy_def bcast2_def)

text \<open>
  Claim C6, amended. For two lists with one vector for each player, each dual vector as
  long as its parameter vector, and either potential the repository provides,
  \<^verbatim>\<open>exp_map\<close> returns one vector for each player; the vector of player \<open>i\<close> is
  \<open>Dx (Dx_inv param\<^sub>i + Dxx_vp param\<^sub>i dual\<^sub>i)\<close>, the sum taken element by element, and
  it is as long as the parameter vector. Element by element this is
  \<open>(p * alpha + d * alpha) / alpha\<close> under \<open>squared_distance alpha\<close> and
  \<open>exp ((alpha * ln p + d / p * alpha) / alpha)\<close> under \<open>shannon_entropy alpha\<close>. Whether
  a value takes part in later differentiation is not part of a value and has no
  counterpart here.
\<close>

theorem exp_map_formula:
  assumes "length player_list_flattened = length nash_list_flattened"
    and "\<forall>i < length player_list_flattened.
           length (player_list_flattened ! i) = length (nash_list_flattened ! i)"
    and "B = squared_distance alpha \<or> B = shannon_entropy alpha"
  shows "\<exists>mapped. exp_map player_list_flattened nash_list_flattened B = Inr mapped
           \<and> length mapped = length player_list_flattened
           \<and> (\<forall>i < length player_list_flattened.
                 length (mapped ! i) = length (player_list_flattened ! i)
                 \<and> (\<exists>a c. Dx_inv B (player_list_flattened ! i) = Inr a
                          \<and> Dxx_vp B (player_list_flattened ! i) (nash_list_flattened ! i) = Inr c
                          \<and> length c = length a
                          \<and> Dx B (map2 (+) a c) = Inr (mapped ! i)))
           \<and> (B = squared_distance alpha \<longrightarrow>
                 mapped = map2 (map2 (\<lambda>p d. (p * alpha + d * alpha) / alpha))
                            player_list_flattened nash_list_flattened)
           \<and> (B = shannon_entropy alpha \<longrightarrow>
                 mapped = map2 (map2 (\<lambda>p d. exp ((alpha * ln p + d / p * alpha) / alpha)))
                            player_list_flattened nash_list_flattened)"
proof -
  let ?PF = player_list_flattened and ?NF = nash_list_flattened
  let ?cell = "\<lambda>(param, nash). bindE (Dx_inv B param) (\<lambda>a. bindE (Dxx_vp B param nash) (\<lambda>c.
              bindE (bcast2 (+) a c) (\<lambda>s. Dx B s)))"
  let ?sq = "\<lambda>p d. (p * alpha + d * alpha) / alpha"
  let ?sh = "\<lambda>p d. exp ((alpha * ln p + d / p * alpha) / alpha)"
  define g where "g = (if B = squared_distance alpha then map2 ?sq else map2 ?sh)"
  have cell: "?cell (?PF ! i, ?NF ! i) = Inr (g (?PF ! i) (?NF ! i))" if "i < length ?PF" for i
    using assms(2,3) that squared_cell[of "?PF ! i" "?NF ! i" alpha]
      shannon_cell[of "?PF ! i" "?NF ! i" alpha]
    by (auto simp: g_def)
  have run: "exp_map ?PF ?NF B = Inr (map2 g ?PF ?NF)"
    unfolding exp_map_def by (rule mapE_zip_map2[OF assms(1)]) (use cell in simp)
  have each: "length (map2 g ?PF ?NF ! i) = length (?PF ! i)
                 \<and> (\<exists>a c. Dx_inv B (?PF ! i) = Inr a
                          \<and> Dxx_vp B (?PF ! i) (?NF ! i) = Inr c
                          \<and> length c = length a
                          \<and> Dx B (map2 (+) a c) = Inr (map2 g ?PF ?NF ! i))"
    if i: "i < length ?PF" for i
  proof -
    have l: "length (?PF ! i) = length (?NF ! i)" using assms(2) i by simp
    have n: "map2 g ?PF ?NF ! i = g (?PF ! i) (?NF ! i)" using i assms(1) by simp
    have len: "length (g (?PF ! i) (?NF ! i)) = length (?PF ! i)" using l by (simp add: g_def)
    have "\<exists>a c. Dx_inv B (?PF ! i) = Inr a
                          \<and> Dxx_vp B (?PF ! i) (?NF ! i) = Inr c
                          \<and> length c = length a
                          \<and> Dx B (map2 (+) a c) = Inr (g (?PF ! i) (?NF ! i))"
      using cell[OF i] assms(3) l
      by (auto simp: squared_distance_def shannon_entropy_def bcast2_same_length)
    then show ?thesis using n len by simp
  qed
  have sq: "B = squared_distance alpha \<longrightarrow> map2 g ?PF ?NF = map2 (map2 ?sq) ?PF ?NF"
    by (simp add: g_def)
  have "squared_distance alpha \<noteq> shannon_entropy alpha"
  proof
    assume "squared_distance alpha = shannon_entropy alpha"
    then have "Dx (squared_distance alpha) [0] = Dx (shannon_entropy alpha) [0]" by simp
    then show False by (simp add: squared_distance_def shannon_entropy_def)
  qed
  then have sh: "B = shannon_entropy alpha \<longrightarrow> map2 g ?PF ?NF = map2 (map2 ?sh) ?PF ?NF"
    by (auto simp: g_def)
  show ?thesis using run each sq sh assms(1) by (intro exI[of _ "map2 g ?PF ?NF"]) simp
qed

theorem exp_map_formula_witness:
  "exp_map [[1, 2], [3]] [[4, 6], [8]] (squared_distance 2) = Inr [[5, 8], [11]]
   \<and> exp_map [[1, 2], [3]] [[4, 6], [9]] (shannon_entropy 1)
       = Inr [[exp (ln 1 + 4), exp (ln 2 + 3)], [exp (ln 3 + 3)]]"
proof -
  have l: "length [[1, 2], [3 :: real]] = length [[4, 6], [8 :: real]]"
    "length [[1, 2], [3 :: real]] = length [[4, 6], [9 :: real]]" by simp_all
  have e: "\<forall>i < length [[1, 2], [3 :: real]].
             length ([[1, 2], [3 :: real]] ! i) = length ([[4, 6], [8 :: real]] ! i)"
    "\<forall>i < length [[1, 2], [3 :: real]].
             length ([[1, 2], [3 :: real]] ! i) = length ([[4, 6], [9 :: real]] ! i)"
    by (simp_all add: less_Suc_eq)
  have b: "squared_distance 2 = squared_distance 2 \<or> squared_distance 2 = shannon_entropy 2"
    "shannon_entropy 1 = squared_distance 1 \<or> shannon_entropy 1 = shannon_entropy 1"
    by simp_all
  have one: "exp_map [[1, 2], [3]] [[4, 6], [8]] (squared_distance 2) = Inr [[5, 8], [11]]"
    using exp_map_formula[OF l(1) e(1) b(1)] by auto
  have two: "exp_map [[1, 2], [3]] [[4, 6], [9]] (shannon_entropy 1)
       = Inr [[exp (ln 1 + 4), exp (ln 2 + 3)], [exp (ln 3 + 3)]]"
    using exp_map_formula[OF l(2) e(2) b(2)] by auto
  show ?thesis using one two by simp
qed

section \<open>Properties of the meta-matrix operator\<close>


text \<open>One pass of the inner loop touches block \<open>i\<close> only.\<close>

lemma foldE_block:
  assumes "i < length prod_l"
    and "\<And>x pl. x \<in> set items \<Longrightarrow> i < length pl \<Longrightarrow>
           body x pl = bindE (bindE (blk x) (\<lambda>t. inplace2 (+) (pl ! i) t)) (\<lambda>y. Inr (pl[i := y]))"
  shows "foldE body items prod_l
           = bindE (foldE (\<lambda>x acc. bindE (blk x) (\<lambda>t. inplace2 (+) acc t)) items (prod_l ! i))
               (\<lambda>y. Inr (prod_l[i := y]))"
  using assms
proof (induction items arbitrary: prod_l)
  case Nil
  then show ?case by simp
next
  case (Cons x items)
  have step: "body x prod_l
      = bindE (bindE (blk x) (\<lambda>t. inplace2 (+) (prod_l ! i) t)) (\<lambda>y. Inr (prod_l[i := y]))"
    using Cons.prems by simp
  show ?case
  proof (cases "bindE (blk x) (\<lambda>t. inplace2 (+) (prod_l ! i) t)")
    case (Inl e)
    then show ?thesis using step by simp
  next
    case (Inr y)
    have len: "i < length (prod_l[i := y])" using Cons.prems(1) by simp
    have ih: "foldE body items (prod_l[i := y])
           = bindE (foldE (\<lambda>x acc. bindE (blk x) (\<lambda>t. inplace2 (+) acc t)) items ((prod_l[i := y]) ! i))
               (\<lambda>z. Inr ((prod_l[i := y])[i := z]))"
      using Cons.IH[OF len] Cons.prems(2) by simp
    show ?thesis using step Inr ih Cons.prems(1) by simp
  qed
qed

lemma enumerate_from0_map: "enumerate_from0 xs = map (\<lambda>i. (i, xs ! i)) [0..<length xs]"
  by (rule nth_equalityI) (simp_all add: enumerate_from0_def)

lemma enumerate_from0_zip:
  "length xs = length ys \<Longrightarrow>
   enumerate_from0 (zip xs ys) = map (\<lambda>j. (j, xs ! j, ys ! j)) [0..<length xs]"
  by (rule nth_equalityI) (simp_all add: enumerate_from0_def)

lemma avp_body_block:
  assumes "i < length pl"
  shows "avp_body E L PF B t i rp (j, cp, ve) pl
     = bindE (bindE (if i = j then bindE (nthE PF i) (\<lambda>pf. Dxx_vp B pf ve)
                     else bindE (nthE L (if t then j else i)) (\<lambda>loss. hvp_block E loss cp rp ve))
               (\<lambda>t. inplace2 (+) (pl ! i) t))
         (\<lambda>y. Inr (pl[i := y]))"
  using assms
  by (simp add: avp_body_def hvp_block_def bindE_assoc)

text \<open>The inner loop of \<open>avp\<close> for row \<open>i\<close>.\<close>

lemma avp_row:
  assumes "length V = length P" and "i < length P" and "length pl = length P"
  shows "foldE (avp_body E L PF B t i (P ! i)) (enumerate_from0 (zip P V)) pl
     = bindE (foldE (\<lambda>j acc.
                 bindE (if i = j then bindE (nthE PF i) (\<lambda>pf. Dxx_vp B pf (V ! i))
                        else block_as_coded E L P V t i j)
                   (\<lambda>t. inplace2 (+) acc t))
               [0..<length P] (pl ! i))
         (\<lambda>y. Inr (pl[i := y]))"
proof -
  let ?blk = "\<lambda>(j, cp, ve). if i = j then bindE (nthE PF i) (\<lambda>pf. Dxx_vp B pf ve)
                     else bindE (nthE L (if t then j else i)) (\<lambda>loss. hvp_block E loss cp (P ! i) ve)"
  have il: "i < length pl" using assms by simp
  have "foldE (avp_body E L PF B t i (P ! i)) (enumerate_from0 (zip P V)) pl
      = bindE (foldE (\<lambda>x acc. bindE (?blk x) (\<lambda>t. inplace2 (+) acc t)) (enumerate_from0 (zip P V)) (pl ! i))
               (\<lambda>y. Inr (pl[i := y]))"
    by (rule foldE_block[OF il]) (auto simp: avp_body_block)
  also have "foldE (\<lambda>x acc. bindE (?blk x) (\<lambda>t. inplace2 (+) acc t)) (enumerate_from0 (zip P V)) (pl ! i)
      = foldE (\<lambda>j acc. bindE (?blk (j, P ! j, V ! j)) (\<lambda>t. inplace2 (+) acc t)) [0..<length P] (pl ! i)"
    using assms(1) by (simp add: enumerate_from0_zip foldE_map)
  also have "\<dots> = foldE (\<lambda>j acc.
                 bindE (if i = j then bindE (nthE PF i) (\<lambda>pf. Dxx_vp B pf (V ! i))
                        else block_as_coded E L P V t i j)
                   (\<lambda>t. inplace2 (+) acc t))
               [0..<length P] (pl ! i)"
    by (rule foldE_cong) (auto simp: block_as_coded_def)
  finally show ?thesis .
qed

text \<open>The outer loop: rows are finished one after the other.\<close>

lemma foldE_rows:
  assumes "length pl = n" and "k \<le> n"
  shows "foldE (\<lambda>i p. bindE (row i (p ! i)) (\<lambda>y. Inr (p[i := y]))) [k..<n] pl
     = bindE (mapE (\<lambda>i. row i (pl ! i)) [k..<n]) (\<lambda>ys. Inr (take k pl @ ys))"
  using assms
proof (induction "n - k" arbitrary: k pl)
  case 0
  then show ?case by simp
next
  case (Suc d)
  then have kn: "k < n" by simp
  have up: "[k..<n] = k # [Suc k..<n]" using kn by (simp add: upt_conv_Cons)
  show ?case
  proof (cases "row k (pl ! k)")
    case (Inl e)
    then show ?thesis by (simp add: up)
  next
    case (Inr y)
    have d: "d = n - Suc k" using Suc.hyps(2) by simp
    have l: "length (pl[k := y]) = n" using Suc.prems by simp
    have ih: "foldE (\<lambda>i p. bindE (row i (p ! i)) (\<lambda>y. Inr (p[i := y]))) [Suc k..<n] (pl[k := y])
       = bindE (mapE (\<lambda>i. row i ((pl[k := y]) ! i)) [Suc k..<n]) (\<lambda>ys. Inr (take (Suc k) (pl[k := y]) @ ys))"
      using Suc.hyps(1)[OF d l] kn by simp
    have m: "mapE (\<lambda>i. row i ((pl[k := y]) ! i)) [Suc k..<n] = mapE (\<lambda>i. row i (pl ! i)) [Suc k..<n]"
      by (rule mapE_cong) simp
    have t: "take (Suc k) (pl[k := y]) = take k pl @ [y]"
      using kn Suc.prems(1) by (simp add: take_Suc_conv_app_nth)
    show ?thesis using Inr ih m t
      by (cases "mapE (\<lambda>i. row i (pl ! i)) [Suc k..<n]") (simp_all add: up)
  qed
qed

lemma avp_rows:
  assumes "length V = length P"
  shows "avp E L P PF V B t = meta_product (block_as_coded E L P V t) PF V B (length P)"
proof -
  let ?row = "\<lambda>i z. foldE (\<lambda>j acc.
                 bindE (if i = j then bindE (nthE PF i) (\<lambda>pf. Dxx_vp B pf (V ! i))
                        else block_as_coded E L P V t i j)
                   (\<lambda>t. inplace2 (+) acc t))
               [0..<length P] z"
  let ?G = "\<lambda>i p. bindE (?row i (p ! i)) (\<lambda>y. Inr (p[i := y]))"
  have inv: "foldE (\<lambda>i. foldE (avp_body E L PF B t i (P ! i)) (enumerate_from0 (zip P V))) js pl
           = foldE ?G js pl"
    if "set js \<subseteq> {..<length P}" "length pl = length P" for js pl
    using that
  proof (induction js arbitrary: pl)
    case Nil
    then show ?case by simp
  next
    case (Cons a js)
    have a: "a < length P" using Cons.prems by simp
    have s: "foldE (avp_body E L PF B t a (P ! a)) (enumerate_from0 (zip P V)) pl = ?G a pl"
      using avp_row[OF assms a Cons.prems(2)] .
    show ?case
    proof (cases "?G a pl")
      case (Inl e)
      then show ?thesis using s by simp
    next
      case (Inr pl')
      then obtain y where "pl' = pl[a := y]" by (auto simp: bindE_def split: sum.splits)
      then have "length pl' = length P" using Cons.prems by simp
      then show ?thesis using Cons.IH[of pl'] Cons.prems(1) s Inr by simp
    qed
  qed
  have "avp E L P PF V B t
      = foldE (\<lambda>i. foldE (avp_body E L PF B t i (P ! i)) (enumerate_from0 (zip P V)))
          [0..<length P] (map zeros_like V)"
    by (simp add: avp_def enumerate_from0_map foldE_map)
  also have "\<dots> = foldE ?G [0..<length P] (map zeros_like V)"
    by (rule inv) (auto simp: assms)
  also have "\<dots> = bindE (mapE (\<lambda>i. ?row i (map zeros_like V ! i)) [0..<length P])
                      (\<lambda>ys. Inr (take 0 (map zeros_like V) @ ys))"
    by (rule foldE_rows) (simp_all add: assms)
  also have "\<dots> = mapE (\<lambda>i. ?row i (map zeros_like V ! i)) [0..<length P]"
    by (cases "mapE (\<lambda>i. ?row i (map zeros_like V ! i)) [0..<length P]") simp_all
  also have "\<dots> = mapE (\<lambda>i. ?row i (zeros_like (V ! i))) [0..<length P]"
    by (rule mapE_cong) (simp add: assms)
  finally show ?thesis by (simp add: meta_product_def)
qed

lemmas game_defs = avp_def atvp_def col_grads_def atvp_body_def enumerate_from0_def avp_body_def
  jet_engine_def jet_uses_def jet_curved_def lin_uses_def
  flatten_filter_none_def cat_def nthE_def inplace2_def squared_distance_def
  zeros_like_def two_players_def two_losses_def bilinear_def numel_def meta_product_def
  block_as_specified_def hvp_block_def

text \<open>
  The gradient of an objective that is linear in the parameters carries no graph, and
  the second differentiation raises, in the block and so in the whole product.
\<close>

lemma linear_objective_raises:
  "hvp_block jet_engine additive (two_players ! 1) (two_players ! 0) [3] = Inl RuntimeError"
  "avp jet_engine [additive, additive] two_players [[2], [7]] [[1], [3]] (squared_distance 1) t
     = Inl RuntimeError"
  by (simp_all add: game_defs additive_def upt2)

text \<open>
  Claim C1, as stated, fails on the two-player game with objectives \<open>x * y\<close> and
  \<open>5 * x * y\<close> and the input \<open>v = [[1], [3]]\<close>. Not transposed, the loop differentiates
  the objective of the row player \<open>i\<close>, not of player \<open>j\<close>: the code returns
  \<open>[[4], [8]]\<close>, the product as specified would be \<open>[[16], [4]]\<close>. Transposed, the seed
  is still \<open>v[j]\<close>, not \<open>v[i]\<close>: the code returns \<open>[[16], [4]]\<close>, the product as specified
  would be \<open>[[6], [6]]\<close>.
\<close>

theorem avp_not_as_specified:
  "avp jet_engine two_losses two_players [[2], [7]] [[1], [3]] (squared_distance 1) False
     = Inr [[4], [8]]
   \<and> meta_product (block_as_specified jet_engine two_losses two_players [[1], [3]] False)
       [[2], [7]] [[1], [3]] (squared_distance 1) 2 = Inr [[16], [4]]
   \<and> avp jet_engine two_losses two_players [[2], [7]] [[1], [3]] (squared_distance 1) True
     = Inr [[16], [4]]
   \<and> meta_product (block_as_specified jet_engine two_losses two_players [[1], [3]] True)
       [[2], [7]] [[1], [3]] (squared_distance 1) 2 = Inr [[6], [6]]"
  by (simp add: game_defs upt2)

text \<open>
  Claim C1, amended. With one input vector for each player, output block \<open>i\<close> of \<open>avp\<close> is
  the sum, in column order, of the Bregman term on the diagonal and, for every \<open>j \<noteq> i\<close>,
  of the two-stage derivative: the gradient of the objective of player \<open>i\<close> (of player \<open>j\<close>
  when transposed) with respect to the parameters of player \<open>j\<close>, differentiated against
  the parameters of player \<open>i\<close> and seeded by \<open>v[j]\<close> under either setting of the flag.
  The equation holds for results and for exceptions alike.
\<close>

theorem avp_blockwise:
  assumes "length v = length player_list"
  shows "avp E hessian_loss_list player_list player_list_flattened v B False
           = meta_product
               (\<lambda>i j. bindE (nthE hessian_loss_list i) (\<lambda>loss.
                         hvp_block E loss (player_list ! j) (player_list ! i) (v ! j)))
               player_list_flattened v B (length player_list)
       \<and> avp E hessian_loss_list player_list player_list_flattened v B True
           = meta_product
               (\<lambda>i j. bindE (nthE hessian_loss_list j) (\<lambda>loss.
                         hvp_block E loss (player_list ! j) (player_list ! i) (v ! j)))
               player_list_flattened v B (length player_list)"
  using avp_rows[OF assms, of E hessian_loss_list player_list_flattened B False]
        avp_rows[OF assms, of E hessian_loss_list player_list_flattened B True]
  by (simp add: block_as_coded_def[abs_def])

theorem avp_blockwise_witness:
  "meta_product
      (\<lambda>i j. bindE (nthE two_losses i) (\<lambda>loss.
                hvp_block jet_engine loss (two_players ! j) (two_players ! i) ([[1], [3]] ! j)))
      [[2], [7]] [[1], [3]] (squared_distance 1) (length two_players) = Inr [[4], [8]]
   \<and> meta_product
      (\<lambda>i j. bindE (nthE two_losses j) (\<lambda>loss.
                hvp_block jet_engine loss (two_players ! j) (two_players ! i) ([[1], [3]] ! j)))
      [[2], [7]] [[1], [3]] (squared_distance 1) (length two_players) = Inr [[16], [4]]"
proof -
  have l: "length [[1], [3 :: real]] = length two_players" by (simp add: two_players_def)
  have a: "avp jet_engine two_losses two_players [[2], [7]] [[1], [3]] (squared_distance 1) False
     = Inr [[4], [8]]" by (simp add: game_defs upt2)
  have b: "avp jet_engine two_losses two_players [[2], [7]] [[1], [3]] (squared_distance 1) True
     = Inr [[16], [4]]" by (simp add: game_defs upt2)
  from avp_blockwise[OF l, of jet_engine two_losses "[[2], [7]]" "squared_distance 1"] a b
  show ?thesis by simp
qed

lemma atvp_body_eq:
  assumes "bindE (nthE L j) (\<lambda>loss. bindE (grad_graph E loss cp) (\<lambda>grad_raw.
             flatten_filter_none grad_raw cp False False)) = Inr gj"
    and "nthE g j = Inr gj"
  shows "avp_body E L PF B True i rp (j, cp, ve) pl = atvp_body E g PF B i rp (j, ve) pl"
proof (cases "i = j")
  case True
  then show ?thesis by (simp add: avp_body_def atvp_body_def)
next
  case False
  obtain loss where l: "nthE L j = Inr loss" using assms(1) by (cases "nthE L j") auto
  obtain gr where gr: "grad_graph E loss cp = Inr gr" using assms(1) l by (cases "grad_graph E loss cp") auto
  have fl: "flatten_filter_none gr cp False False = Inr gj" using assms(1) l gr by simp
  show ?thesis using False l gr fl assms(2) by (simp add: avp_body_def atvp_body_def)
qed

text \<open>With one input vector for each player, \<open>atvp\<close> is its gradient precomputation
  followed by \<open>avp\<close> with \<^verbatim>\<open>transpose=True\<close>.\<close>

lemma atvp_after_col_grads:
  assumes "length v = length player_list"
  shows "atvp E hessian_loss_list player_list player_list_flattened v B
           = bindE (col_grads E hessian_loss_list player_list)
               (\<lambda>_. avp E hessian_loss_list player_list player_list_flattened v B True)"
proof (cases "col_grads E hessian_loss_list player_list")
  case (Inl e)
  then show ?thesis by (simp add: atvp_def)
next
  case (Inr g)
  let ?n = "length player_list"
  have lg: "length g = ?n" and
    gj: "\<And>j. j < ?n \<Longrightarrow>
      bindE (nthE hessian_loss_list j) (\<lambda>loss. bindE (grad_graph E loss (player_list ! j)) (\<lambda>grad_raw.
             flatten_filter_none grad_raw (player_list ! j) False False)) = Inr (g ! j)"
    using Inr by (simp_all add: col_grads_def mapE_Inr_iff enumerate_from0_map)
  have inner: "foldE (avp_body E hessian_loss_list player_list_flattened B True i rp)
                 (enumerate_from0 (zip player_list v)) pl
             = foldE (atvp_body E g player_list_flattened B i rp) (enumerate_from0 v) pl" for i rp pl
  proof -
    have "foldE (avp_body E hessian_loss_list player_list_flattened B True i rp)
                 (enumerate_from0 (zip player_list v)) pl
        = foldE (\<lambda>j. avp_body E hessian_loss_list player_list_flattened B True i rp
                       (j, player_list ! j, v ! j)) [0..<?n] pl"
      using assms by (simp add: enumerate_from0_zip foldE_map)
    also have "\<dots> = foldE (\<lambda>j. atvp_body E g player_list_flattened B i rp (j, v ! j)) [0..<?n] pl"
      by (rule foldE_cong) (simp add: atvp_body_eq[OF gj] lg)
    also have "\<dots> = foldE (atvp_body E g player_list_flattened B i rp) (enumerate_from0 v) pl"
      using assms by (simp add: enumerate_from0_map foldE_map)
    finally show ?thesis .
  qed
  have "(\<lambda>(i, row_params). foldE (avp_body E hessian_loss_list player_list_flattened B True i row_params)
                 (enumerate_from0 (zip player_list v)))
      = (\<lambda>(i, row_params). foldE (atvp_body E g player_list_flattened B i row_params) (enumerate_from0 v))"
    by (intro ext) (simp add: inner split: prod.splits)
  then show ?thesis using Inr by (simp add: atvp_def avp_def)
qed










text \<open>
  Claim C2, as stated, fails: \<open>atvp\<close> raises where \<open>avp\<close> with \<^verbatim>\<open>transpose=True\<close>
  returns. With one player and an empty list of objectives the precomputation reads
  \<^verbatim>\<open>hessian_loss_list[0]\<close>, which \<open>avp\<close> never reads; with one player and two input vectors
  \<open>atvp\<close> loops over both vectors and reads \<^verbatim>\<open>col_grads_flattened[1]\<close>, while the \<^verbatim>\<open>zip\<close>
  of \<open>avp\<close> stops after the first.
\<close>

theorem atvp_raises_where_avp_returns:
  "atvp jet_engine [] [two_players ! 0] [[2]] [[9]] (squared_distance 1) = Inl IndexError
   \<and> avp jet_engine [] [two_players ! 0] [[2]] [[9]] (squared_distance 1) True = Inr [[9]]
   \<and> atvp jet_engine two_losses [two_players ! 0] [[2]] [[9], [4]] (squared_distance 1)
       = Inl IndexError
   \<and> avp jet_engine two_losses [two_players ! 0] [[2]] [[9], [4]] (squared_distance 1) True
       = Inr [[9], [0]]"
  by (simp add: game_defs)

text \<open>
  Claim C2, amended. With one input vector for each player, whenever the precomputation
  of the first-order gradients (objective \<open>j\<close> with respect to the parameters of player
  \<open>j\<close>, for every player) does not raise, \<open>atvp\<close> gives exactly what \<open>avp\<close> with
  \<^verbatim>\<open>transpose=True\<close> gives on the same inputs, output vectors or exception; when the
  precomputation raises, \<open>atvp\<close> raises that exception.
\<close>

theorem atvp_is_transposed_avp:
  assumes "length v = length player_list"
  shows "(col_grads E hessian_loss_list player_list = Inr g \<longrightarrow>
            atvp E hessian_loss_list player_list player_list_flattened v B
              = avp E hessian_loss_list player_list player_list_flattened v B True)
       \<and> (col_grads E hessian_loss_list player_list = Inl e \<longrightarrow>
            atvp E hessian_loss_list player_list player_list_flattened v B = Inl e)"
  using atvp_after_col_grads[OF assms, of E hessian_loss_list player_list_flattened B] by simp

theorem atvp_is_transposed_avp_witness:
  "atvp jet_engine two_losses two_players [[2], [7]] [[1], [3]] (squared_distance 1) = Inr [[16], [4]]
   \<and> avp jet_engine two_losses two_players [[2], [7]] [[1], [3]] (squared_distance 1) True
       = Inr [[16], [4]]
   \<and> col_grads jet_engine [bilinear 1] two_players = Inl IndexError
   \<and> atvp jet_engine [bilinear 1] two_players [[2], [7]] [[1], [3]] (squared_distance 1)
       = Inl IndexError"
proof -
  have l: "length [[1], [3 :: real]] = length two_players" by (simp add: two_players_def)
  have c: "col_grads jet_engine two_losses two_players
      = Inr [[Lin True (jet_hess (bilinear 1) (0, 0))], [Lin True (jet_hess (bilinear 5) (1, 0))]]"
    by (simp add: game_defs upt2)
  have b: "avp jet_engine two_losses two_players [[2], [7]] [[1], [3]] (squared_distance 1) True
     = Inr [[16], [4]]" by (simp add: game_defs upt2)
  have e: "col_grads jet_engine [bilinear 1] two_players = Inl IndexError"
    by (simp add: game_defs upt2)
  have one: "atvp jet_engine two_losses two_players [[2], [7]] [[1], [3]] (squared_distance 1)
      = Inr [[16], [4]]"
    using atvp_is_transposed_avp[OF l, of jet_engine two_losses _ "[[2], [7]]" "squared_distance 1",
        THEN conjunct1] b c by simp
  have two: "atvp jet_engine [bilinear 1] two_players [[2], [7]] [[1], [3]] (squared_distance 1)
      = Inl IndexError"
    using atvp_is_transposed_avp[OF l, of jet_engine "[bilinear 1]" _ "[[2], [7]]" "squared_distance 1"
        IndexError, THEN conjunct2] e by simp
  show ?thesis using one two b e by simp
qed



section \<open>Properties of the conjugate-gradient solver\<close>

lemma mapE_dot_self:
  "mapE (\<lambda>(e1, e2). dot e1 e2) (zip r r) = Inr (map (\<lambda>e. sum_list (map (\<lambda>a. a * a) e)) r)"
proof (induction r)
  case Nil
  then show ?case by simp
next
  case (Cons e r)
  have "map2 (*) e e = map (\<lambda>a. a * a) e" by (induction e) simp_all
  then show ?case using Cons by (simp add: dot_def)
qed

lemma sum_dots_self: "sum_dots r r = Inr (sq_norm r)"
  by (simp add: sum_dots_def sq_norm_def mapE_dot_self)

lemma cg_init_unfold:
  assumes "neg_grads E GL P = Inr b"
    and "avp E HL P PF b B True = Inr r0"
  shows "cg_init E GL HL P PF guess B tol =
     (case guess of
        None \<Rightarrow> Inr (map zeros_like PF, r0, tol * sq_norm r0)
      | Some x \<Rightarrow>
          bindE (avp E HL P PF x B False) (\<lambda>A_x.
          bindE (avp E HL P PF A_x B True) (\<lambda>At_A_x.
          bindE (foreach_inplace (-) r0 At_A_x) (\<lambda>r'.
          Inr (x, r', tol * sq_norm r0)))))"
  using assms by (simp add: cg_init_def sum_dots_self Let_def)


lemmas solver_defs = neg_grads_def avp_def enumerate_from0_def avp_body_def
  jet_engine_def jet_uses_def jet_curved_def lin_uses_def flatten_filter_none_def cat_def nthE_def inplace2_def bcast2_def
  zeros_like_def numel_def sum_dots_def dot_def foreach_inplace_def foreach_new_def

lemmas two_player_defs = two_players_def two_losses_def bilinear_def squared_distance_def

lemma filtered_fits:
  "list_all2 (\<lambda>g p. case g of None \<Rightarrow> True | Some t \<Rightarrow> length (data t) = numel p) gs inputs \<Longrightarrow>
   length (concat (filtered gs inputs)) = sum_list (map numel inputs)
   \<and> (inputs \<noteq> [] \<longrightarrow> filtered gs inputs \<noteq> [])"
  by (induction gs inputs rule: list_all2_induct) (auto split: option.splits)

lemma flatten_fits:
  assumes "fits gs inputs" and "inputs \<noteq> []"
  shows "\<exists>f. flatten_filter_none gs inputs d neg = Inr f \<and> length f = sum_list (map numel inputs)"
  using filtered_fits[OF assms(1)[unfolded fits_def]] assms(2)
  by (auto simp: flatten_filter_none_def cat_def)

lemma inplace2_same: "length c = length a \<Longrightarrow> inplace2 f a c = Inr (map2 f a c)"
  by (simp add: inplace2_def)

text \<open>Facts a regular game provides, one at a time.\<close>

lemma regular_sizes:
  assumes "regular_game E GL HL P PF B"
  shows "P \<noteq> []" "length GL = length P" "length HL = length P" "length PF = length P"
  using assms by (simp_all add: regular_game_def)

lemma regular_nonempty:
  assumes "regular_game E GL HL P PF B" and "i < length P"
  shows "P ! i \<noteq> []"
  using assms unfolding regular_game_def by blast

lemma regular_flat_length:
  assumes "regular_game E GL HL P PF B" and "i < length P"
  shows "length (PF ! i) = sum_list (map numel (P ! i))"
  using assms unfolding regular_game_def by blast

lemma regular_grad_values:
  assumes "regular_game E GL HL P PF B" and "i < length P"
  shows "\<exists>gs. grad_values E (GL ! i) (P ! i) = Inr gs \<and> fits gs (P ! i)"
  using assms unfolding regular_game_def by blast

lemma regular_Dxx_vp:
  assumes "regular_game E GL HL P PF B" and "i < length P" and "length v = length (PF ! i)"
  shows "\<exists>d. Dxx_vp B (PF ! i) v = Inr d \<and> length d = length v"
  using assms unfolding regular_game_def by blast

lemma regular_hvp_block:
  assumes "regular_game E GL HL P PF B" and "i < length P" and "j < length P" and "i \<noteq> j"
    and "length seed = length (PF ! j)"
  shows "\<exists>h. hvp_block E (HL ! (if t then j else i)) (P ! j) (P ! i) seed = Inr h
            \<and> length h = length (PF ! i)"
proof -
  have "(\<exists>h. hvp_block E (HL ! i) (P ! j) (P ! i) seed = Inr h \<and> length h = length (PF ! i))
      \<and> (\<exists>h. hvp_block E (HL ! j) (P ! j) (P ! i) seed = Inr h \<and> length h = length (PF ! i))"
    using assms unfolding regular_game_def by blast
  then show ?thesis by (cases t) simp_all
qed

lemma neg_grads_regular:
  assumes reg: "regular_game E GL HL P PF B"
  shows "\<exists>b. neg_grads E GL P = Inr b \<and> map length b = map length PF"
proof -
  let ?f = "\<lambda>(loss, param_tensors). bindE (grad_values E loss param_tensors) (\<lambda>grad_raw.
             flatten_filter_none grad_raw param_tensors True True)"
  have len: "length (zip GL P) = length P" using regular_sizes[OF reg] by simp
  have each: "\<exists>y. ?f (zip GL P ! i) = Inr y \<and> length y = length (PF ! i)" if i: "i < length P" for i
  proof -
    obtain gs where gs: "grad_values E (GL ! i) (P ! i) = Inr gs" "fits gs (P ! i)"
      using regular_grad_values[OF reg i] by blast
    obtain f where "flatten_filter_none gs (P ! i) True True = Inr f"
        "length f = sum_list (map numel (P ! i))"
      using flatten_fits[OF gs(2) regular_nonempty[OF reg i]] by blast
    then show ?thesis using gs i regular_sizes[OF reg] regular_flat_length[OF reg i] by simp
  qed
  have "\<exists>ys. mapE ?f (zip GL P) = Inr ys \<and> length ys = length (zip GL P)
        \<and> (\<forall>i < length (zip GL P). (\<lambda>x y. \<exists>k < length P. x = zip GL P ! k \<and> length y = length (PF ! k)) (zip GL P ! i) (ys ! i))"
  proof (rule mapE_total_prop)
    fix x assume "x \<in> set (zip GL P)"
    then obtain k where k: "k < length P" "x = zip GL P ! k"
      using len by (metis in_set_conv_nth)
    then show "\<exists>y. ?f x = Inr y \<and> (\<exists>k < length P. x = zip GL P ! k \<and> length y = length (PF ! k))"
      using each[OF k(1)] by auto
  qed
  then obtain ys where ys: "mapE ?f (zip GL P) = Inr ys" "length ys = length P"
    using len by auto
  have "length (ys ! i) = length (PF ! i)" if i: "i < length P" for i
  proof -
    have "?f (zip GL P ! i) = Inr (ys ! i)" using ys(1) i len by (simp add: mapE_Inr_iff)
    then show ?thesis using each[OF i] by auto
  qed
  then have "map length ys = map length PF"
    using ys(2) regular_sizes[OF reg] by (auto intro: nth_equalityI)
  then show ?thesis using ys(1) by (auto simp: neg_grads_def)
qed

lemma block_regular:
  assumes reg: "regular_game E GL HL P PF B" and i: "i < length P" and j: "j < length P"
    and ij: "i \<noteq> j" and v: "length (V ! j) = length (PF ! j)"
  shows "\<exists>h. block_as_coded E HL P V t i j = Inr h \<and> length h = length (PF ! i)"
proof -
  let ?k = "if t then j else i"
  have k: "?k < length P" using i j by simp
  have "nthE HL ?k = Inr (HL ! ?k)" using k regular_sizes[OF reg] by simp
  then show ?thesis using regular_hvp_block[OF reg i j ij v, of t]
    by (simp add: block_as_coded_def)
qed

lemma avp_regular:
  assumes reg: "regular_game E GL HL P PF B" and V: "map length V = map length PF"
  shows "\<exists>y. avp E HL P PF V B t = Inr y \<and> map length y = map length PF"
proof -
  let ?n = "length P"
  have lV: "length V = ?n" using V regular_sizes[OF reg] by (metis length_map)
  have lPF: "length PF = ?n" using regular_sizes[OF reg] by simp
  have Vi: "length (V ! i) = length (PF ! i)" if "i < ?n" for i
    using V that lV lPF by (metis nth_map)
  let ?step = "\<lambda>i j acc. bindE (if i = j then bindE (nthE PF i) (\<lambda>pf. Dxx_vp B pf (V ! i))
                        else block_as_coded E HL P V t i j)
                   (\<lambda>t. inplace2 (+) acc t)"
  let ?row = "\<lambda>i. foldE (?step i) [0..<?n] (zeros_like (V ! i))"
  have row: "\<exists>y. ?row i = Inr y \<and> length y = length (PF ! i)" if i: "i < ?n" for i
  proof (rule foldE_invariant[where I = "\<lambda>acc. length acc = length (PF ! i)"])
    show "length (zeros_like (V ! i)) = length (PF ! i)" using Vi[OF i] by (simp add: zeros_like_def)
  next
    fix j and acc :: vec
    assume j: "j \<in> set [0..<?n]" and acc: "length acc = length (PF ! i)"
    have "\<exists>h. (if i = j then bindE (nthE PF i) (\<lambda>pf. Dxx_vp B pf (V ! i))
                        else block_as_coded E HL P V t i j) = Inr h \<and> length h = length (PF ! i)"
    proof (cases "i = j")
      case True
      obtain d where "Dxx_vp B (PF ! i) (V ! i) = Inr d" "length d = length (V ! i)"
        using regular_Dxx_vp[OF reg i Vi[OF i]] by blast
      then show ?thesis using True i lPF Vi[OF i] by simp
    next
      case False
      have "j < ?n" using j by simp
      then show ?thesis using False block_regular[OF reg i _ False Vi] by simp
    qed
    then obtain h where h: "(if i = j then bindE (nthE PF i) (\<lambda>pf. Dxx_vp B pf (V ! i))
                        else block_as_coded E HL P V t i j) = Inr h" "length h = length (PF ! i)"
      by blast
    show "\<exists>s'. ?step i j acc = Inr s' \<and> length s' = length (PF ! i)"
      using h acc by (simp add: inplace2_same)
  qed
  have "\<exists>ys. mapE ?row [0..<?n] = Inr ys \<and> length ys = length [0..<?n]
        \<and> (\<forall>i < length [0..<?n]. (\<lambda>x y. length y = length (PF ! x)) ([0..<?n] ! i) (ys ! i))"
    by (rule mapE_total_prop) (use row in auto)
  then obtain ys where ys: "mapE ?row [0..<?n] = Inr ys" "length ys = ?n"
      "\<forall>i < ?n. length (ys ! i) = length (PF ! i)"
    by auto
  have "map length ys = map length PF" using ys(2,3) lPF by (auto intro: nth_equalityI)
  then show ?thesis using ys(1) avp_rows[OF lV, of E HL PF B t] by (simp add: meta_product_def)
qed

lemma cg_body_break:
  assumes "cg_body E HL P PF B rt atol st = Inr (brk, st')"
  shows "brk = (sq_norm (st_r st') < atol \<or> sq_norm (st_r st') < rt)"
    and "\<not> brk \<Longrightarrow> st_rdotr st' = sq_norm (st_r st')"
  using assms
  by (auto simp: cg_body_def bindE_Inr_iff sum_dots_self Let_def split: if_splits)

lemma cg_for_history:
  assumes body: "\<forall>st brk st'. body st = Inr (brk, st') \<longrightarrow> brk = conv (sq_norm (st_r st'))"
    and run: "cg_for body [a..<a + n] i st = Inr (i', st')"
  shows "(n = 0 \<longrightarrow> i' = i \<and> st' = st)
       \<and> (0 < n \<longrightarrow> cg_residuals body n st \<noteq> []
              \<and> i' = Some (a + length (cg_residuals body n st) - 1)
              \<and> length (cg_residuals body n st) \<le> n
              \<and> last (cg_residuals body n st) = sq_norm (st_r st')
              \<and> (\<forall>m. Suc m < length (cg_residuals body n st) \<longrightarrow> \<not> conv (cg_residuals body n st ! m))
              \<and> (length (cg_residuals body n st) < n \<longrightarrow> conv (last (cg_residuals body n st))))"
  using run
proof (induction n arbitrary: a i st)
  case 0
  then show ?case by simp
next
  case (Suc n)
  have up: "[a..<a + Suc n] = a # [Suc a..<Suc a + n]" by (simp add: upt_conv_Cons)
  obtain brk st1 where b: "body st = Inr (brk, st1)"
    using Suc.prems unfolding up by (cases "body st") auto
  have cv: "brk = conv (sq_norm (st_r st1))" using body b by blast
  show ?case
  proof (cases brk)
    case True
    then have "i' = Some a" "st' = st1" using Suc.prems b unfolding up by simp_all
    then show ?thesis using b True cv by simp
  next
    case False
    then have rest: "cg_for body [Suc a..<Suc a + n] (Some a) st1 = Inr (i', st')"
      using Suc.prems b unfolding up by simp
    note ih = Suc.IH[OF rest]
    show ?thesis
    proof (cases "n = 0")
      case True
      then show ?thesis using ih b False by simp
    next
      case n: False
      let ?h = "cg_residuals body n st1"
      have h: "cg_residuals body (Suc n) st = sq_norm (st_r st1) # ?h" using b False by simp
      from ih n have ne: "?h \<noteq> []" and i': "i' = Some (Suc a + length ?h - 1)"
        and le: "length ?h \<le> n" and la: "last ?h = sq_norm (st_r st')"
        and mid: "\<forall>m. Suc m < length ?h \<longrightarrow> \<not> conv (?h ! m)"
        and fin: "length ?h < n \<longrightarrow> conv (last ?h)" by blast+
      have mid': "\<forall>m. Suc m < length (sq_norm (st_r st1) # ?h) \<longrightarrow> \<not> conv ((sq_norm (st_r st1) # ?h) ! m)"
      proof (intro allI impI)
        fix m assume m: "Suc m < length (sq_norm (st_r st1) # ?h)"
        show "\<not> conv ((sq_norm (st_r st1) # ?h) ! m)"
        proof (cases m)
          case 0
          then show ?thesis using cv False by simp
        next
          case (Suc m')
          then show ?thesis using m mid by simp
        qed
      qed
      have len_pos: "0 < length ?h" using ne by simp
      show ?thesis unfolding h using ne i' le la mid' fin len_pos by simp
    qed
  qed
qed

lemma mapE_inplace2_same:
  "map length ys = map length xs \<Longrightarrow>
   mapE (\<lambda>(x, y). inplace2 f x y) (zip xs ys) = Inr (map2 (map2 f) xs ys)"
proof (induction xs arbitrary: ys)
  case Nil
  then show ?case by simp
next
  case (Cons x xs)
  then obtain y ys' where ys: "ys = y # ys'" by (cases ys) auto
  then show ?case using Cons by (simp add: inplace2_same)
qed

lemma mapE_bcast2_same:
  "map length ys = map length xs \<Longrightarrow>
   mapE (\<lambda>(x, y). bcast2 f x y) (zip xs ys) = Inr (map2 (map2 f) xs ys)"
proof (induction xs arbitrary: ys)
  case Nil
  then show ?case by simp
next
  case (Cons x xs)
  then obtain y ys' where ys: "ys = y # ys'" by (cases ys) auto
  then show ?case using Cons by (simp add: bcast2_same_length)
qed

lemma map_length_map2:
  "map length ys = map length xs \<Longrightarrow> map length (map2 (map2 f) xs ys) = map length xs"
proof (induction xs arbitrary: ys)
  case Nil
  then show ?case by simp
next
  case (Cons x xs)
  then obtain y ys' where ys: "ys = y # ys'" by (cases ys) auto
  then show ?case using Cons by simp
qed

lemma foreach_inplace_same:
  assumes "map length ys = map length xs" and "xs \<noteq> []"
  shows "foreach_inplace f xs ys = Inr (map2 (map2 f) xs ys)"
proof -
  have "length xs = length ys" using assms(1) by (metis length_map)
  then show ?thesis
    using mapE_inplace2_same[OF assms(1)] assms(2) by (simp add: foreach_inplace_def)
qed

lemma foreach_new_same:
  assumes "map length ys = map length xs" and "xs \<noteq> []"
  shows "foreach_new f xs ys = Inr (map2 (map2 f) xs ys)"
proof -
  have "length xs = length ys" using assms(1) by (metis length_map)
  then show ?thesis
    using mapE_bcast2_same[OF assms(1)] assms(2) by (simp add: foreach_new_def)
qed

lemma regular_shape_nonempty:
  assumes "regular_game E GL HL P PF B" and "map length x = map length PF"
  shows "x \<noteq> []"
  using assms by (metis length_0_conv length_map regular_game_def)

lemma sum_dots_same:
  "map length ys = map length xs \<Longrightarrow> \<exists>s. sum_dots xs ys = Inr s"
proof -
  assume a: "map length ys = map length xs"
  have "\<exists>ds. mapE (\<lambda>(e1, e2). dot e1 e2) (zip xs ys) = Inr ds"
    using a
  proof (induction xs arbitrary: ys)
    case Nil
    then show ?case by simp
  next
    case (Cons x xs)
    then obtain y ys' where ys: "ys = y # ys'" by (cases ys) auto
    then obtain ds where "mapE (\<lambda>(e1, e2). dot e1 e2) (zip xs ys') = Inr ds"
      using Cons by auto
    then show ?case using ys Cons.prems by (simp add: dot_def)
  qed
  then show ?thesis by (auto simp: sum_dots_def)
qed

lemma cg_init_regular:
  assumes reg: "regular_game E GL HL P PF B" and g: "guess_fits guess PF"
  shows "\<exists>x r rt. cg_init E GL HL P PF guess B tol = Inr (x, r, rt)
           \<and> map length x = map length PF \<and> map length r = map length PF"
proof -
  obtain b where b: "neg_grads E GL P = Inr b" "map length b = map length PF"
    using neg_grads_regular[OF reg] by blast
  obtain r0 where r0: "avp E HL P PF b B True = Inr r0" "map length r0 = map length PF"
    using avp_regular[OF reg b(2)] by blast
  show ?thesis
  proof (cases guess)
    case None
    have "map length (map zeros_like PF) = map length PF" by (simp add: zeros_like_def)
    then show ?thesis using cg_init_unfold[OF b(1) r0(1), of guess tol] None r0(2) by simp
  next
    case (Some x)
    then have x: "map length x = map length PF" using g by (simp add: guess_fits_def)
    obtain A_x where ax: "avp E HL P PF x B False = Inr A_x" "map length A_x = map length PF"
      using avp_regular[OF reg x] by blast
    obtain At_A_x where atax: "avp E HL P PF A_x B True = Inr At_A_x"
        "map length At_A_x = map length PF"
      using avp_regular[OF reg ax(2)] by blast
    have s: "map length At_A_x = map length r0" using atax(2) r0(2) by simp
    have ne: "r0 \<noteq> []" by (rule regular_shape_nonempty[OF reg r0(2)])
    have "map length (map2 (map2 (-)) r0 At_A_x) = map length PF"
      using map_length_map2[OF s] r0(2) by simp
    then show ?thesis
      using cg_init_unfold[OF b(1) r0(1), of guess tol] Some ax atax
        foreach_inplace_same[OF s ne] x
      by simp
  qed
qed


lemma cg_body_step:
  assumes reg: "regular_game E GL HL P PF B"
    and sx: "map length (st_x st) = map length PF"
    and sr: "map length (st_r st) = map length PF"
    and sp: "map length (st_p st) = map length PF"
  shows "\<exists>brk st' z a. cg_body E HL P PF B rt atol st = Inr (brk, st')
           \<and> normal_op E HL P PF B (st_p st) = Inr z
           \<and> st_x st' = axpy a (st_x st) (st_p st)
           \<and> st_r st' = map2 (map2 (\<lambda>u w. u - a * w)) (st_r st) z
           \<and> map length (st_x st') = map length PF
           \<and> map length (st_r st') = map length PF
           \<and> map length (st_p st') = map length PF"
proof -
  obtain A_p where ap: "avp E HL P PF (st_p st) B False = Inr A_p" "map length A_p = map length PF"
    using avp_regular[OF reg sp] by blast
  obtain At_A_p where atap: "avp E HL P PF A_p B True = Inr At_A_p"
      "map length At_A_p = map length PF"
    using avp_regular[OF reg ap(2)] by blast
  have nop: "normal_op E HL P PF B (st_p st) = Inr At_A_p" using ap atap by (simp add: normal_op_def)
  obtain pAp where pAp: "sum_dots (st_p st) At_A_p = Inr pAp"
    using sum_dots_same[of At_A_p "st_p st"] atap(2) sp by auto
  have nx: "st_x st \<noteq> []" by (rule regular_shape_nonempty[OF reg sx])
  have ne: "st_r st \<noteq> []" by (rule regular_shape_nonempty[OF reg sr])
  let ?alpha = "st_rdotr st / pAp"
  define x' where "x' = map2 (map2 (\<lambda>a c. a + ?alpha * c)) (st_x st) (st_p st)"
  define r' where "r' = map2 (map2 (\<lambda>a c. a - ?alpha * c)) (st_r st) At_A_p"
  have fx: "foreach_inplace (\<lambda>a c. a + ?alpha * c) (st_x st) (st_p st) = Inr x'"
    unfolding x'_def by (rule foreach_inplace_same) (simp_all add: sx sp nx)
  have fr: "foreach_inplace (\<lambda>a c. a - ?alpha * c) (st_r st) At_A_p = Inr r'"
    unfolding r'_def by (rule foreach_inplace_same) (simp_all add: sr atap(2) ne)
  have lx: "map length x' = map length PF"
    unfolding x'_def using map_length_map2[of "st_p st" "st_x st"] sx sp by simp
  have lr: "map length r' = map length PF"
    unfolding r'_def using map_length_map2[of At_A_p "st_r st"] sr atap(2) by simp
  let ?beta = "sq_norm r' / st_rdotr st"
  define p' where "p' = map2 (map2 (\<lambda>a c. a + ?beta * c)) r' (st_p st)"
  have fp: "foreach_new (\<lambda>a c. a + ?beta * c) r' (st_p st) = Inr p'"
    unfolding p'_def by (rule foreach_new_same[OF _ regular_shape_nonempty[OF reg lr]]) (simp add: lr sp)
  have lp: "map length p' = map length PF"
    unfolding p'_def using map_length_map2[of "st_p st" r'] lr sp by simp
  have xa: "x' = axpy ?alpha (st_x st) (st_p st)" by (simp add: x'_def axpy_def)
  show ?thesis
  proof (cases "sq_norm r' < atol \<or> sq_norm r' < rt")
    case True
    then have "cg_body E HL P PF B rt atol st = Inr (True, st\<lparr>st_x := x', st_r := r'\<rparr>)"
      using ap atap pAp ne fx fr
      by (simp add: cg_body_def Let_def sum_dots_self)
    then show ?thesis using lx lr sp nop xa r'_def by force
  next
    case False
    then have "cg_body E HL P PF B rt atol st
        = Inr (False, \<lparr>st_x = x', st_r = r', st_p = p', st_rdotr = sq_norm r'\<rparr>)"
      using ap atap pAp ne fx fr fp
      by (simp add: cg_body_def Let_def sum_dots_self)
    then show ?thesis using lx lr lp nop xa r'_def by force
  qed
qed

lemma cg_body_regular:
  assumes reg: "regular_game E GL HL P PF B"
    and sx: "map length (st_x st) = map length PF"
    and sr: "map length (st_r st) = map length PF"
    and sp: "map length (st_p st) = map length PF"
  shows "\<exists>brk st'. cg_body E HL P PF B rt atol st = Inr (brk, st')
           \<and> map length (st_x st') = map length PF
           \<and> map length (st_r st') = map length PF
           \<and> map length (st_p st') = map length PF"
  using cg_body_step[OF assms, of rt atol] by blast

lemma cg_for_invariant:
  assumes step: "\<And>st. I st \<Longrightarrow> \<exists>brk st'. body st = Inr (brk, st') \<and> I st'" and "I st"
  shows "\<exists>i' st'. cg_for body ks i st = Inr (i', st') \<and> I st'"
  using assms(2)
proof (induction ks arbitrary: i st)
  case Nil
  then show ?case by simp
next
  case (Cons k ks)
  obtain brk st1 where b: "body st = Inr (brk, st1)" "I st1" using step[OF Cons.prems] by blast
  show ?case using b Cons.IH[OF b(2)] by (cases brk) auto
qed

lemma cg_for_empty_range: "n_steps \<le> 0 \<Longrightarrow> cg_for body [0..<nat n_steps] None st = Inr (None, st)"
  by simp

lemma mcg_unfold:
  assumes "cg_init E GL HL P PF guess B tol = Inr (x, r, rt)"
  shows "metamatrix_conjugate_gradient E GL HL P PF guess B n_steps tol atol =
     (if sq_norm r < rt \<or> sq_norm r < atol then Inr (x, 0)
      else bindE (cg_for (cg_body E HL P PF B rt atol) [0..<nat n_steps] None
                    \<lparr>st_x = x, st_r = r, st_p = r, st_rdotr = sq_norm r\<rparr>)
             (\<lambda>(i, st). case i of None \<Rightarrow> Inl UnboundLocalError | Some i \<Rightarrow> Inr (st_x st, i + 1)))"
  using assms by (simp add: metamatrix_conjugate_gradient_def sum_dots_self)

text \<open>
  Claim C4, amended. On a call that does not exit early and returns after \<open>k\<close>
  iterations, the loop has computed \<open>k\<close> joint squared residuals, between \<open>1\<close> and
  \<open>n_steps\<close> of them; none before the last is below \<open>atol\<close> or \<open>residual_tol\<close>, and when
  the loop stops before \<open>n_steps\<close> iterations the last one is. Nothing orders the
  residuals among themselves.
\<close>

theorem cg_residual_history:
  assumes init: "cg_init E grad_loss_list hessian_loss_list player_list player_list_flattened
                   vector_list_flattened B tol = Inr (x0, r, residual_tol)"
    and no_exit: "\<not> (sq_norm r < residual_tol \<or> sq_norm r < atol)"
    and ret: "metamatrix_conjugate_gradient E grad_loss_list hessian_loss_list player_list
                player_list_flattened vector_list_flattened B n_steps tol atol = Inr (x, k)"
    and h: "h = cg_residuals (cg_body E hessian_loss_list player_list player_list_flattened B
                     residual_tol atol) (nat n_steps)
                  \<lparr>st_x = x0, st_r = r, st_p = r, st_rdotr = sq_norm r\<rparr>"
  shows "length h = k \<and> 1 \<le> k \<and> int k \<le> n_steps
         \<and> (\<forall>m. Suc m < k \<longrightarrow> \<not> (h ! m < atol \<or> h ! m < residual_tol))
         \<and> (int k < n_steps \<longrightarrow> h ! (k - 1) < atol \<or> h ! (k - 1) < residual_tol)"
proof -
  let ?body = "cg_body E hessian_loss_list player_list player_list_flattened B residual_tol atol"
  let ?st0 = "\<lparr>st_x = x0, st_r = r, st_p = r, st_rdotr = sq_norm r\<rparr>"
  let ?conv = "\<lambda>v. v < atol \<or> v < residual_tol"
  obtain i st' where run: "cg_for ?body [0..<nat n_steps] None ?st0 = Inr (i, st')"
    and out: "(case i of None \<Rightarrow> Inl UnboundLocalError | Some i \<Rightarrow> Inr (st_x st', i + 1)) = Inr (x, k)"
    using ret no_exit unfolding mcg_unfold[OF init]
    by (auto simp: bindE_Inr_iff)
  obtain j where i: "i = Some j" and k: "k = j + 1" using out by (cases i) auto
  have run': "cg_for ?body [0..<0 + nat n_steps] None ?st0 = Inr (i, st')" using run by simp
  have brk: "\<forall>s b s'. ?body s = Inr (b, s') \<longrightarrow> b = ?conv (sq_norm (st_r s'))"
    using cg_body_break(1) by blast
  note hist = cg_for_history[of ?body ?conv 0 "nat n_steps" None ?st0 i st', OF brk run']
  have pos: "0 < nat n_steps" using hist i by (cases "nat n_steps = 0") auto
  from hist pos have ne: "h \<noteq> []" and j: "Some j = Some (0 + length h - 1)"
    and le: "length h \<le> nat n_steps"
    and mid: "\<forall>m. Suc m < length h \<longrightarrow> \<not> ?conv (h ! m)"
    and fin: "length h < nat n_steps \<longrightarrow> ?conv (last h)"
    unfolding h i by blast+
  have lk: "length h = k" using j k ne by (cases h) auto
  have la: "last h = h ! (k - 1)" using ne lk by (simp add: last_conv_nth)
  have k1: "1 \<le> k" using ne lk by (cases h) auto
  have kn: "int k \<le> n_steps" using le lk pos by linarith
  have fin': "int k < n_steps \<longrightarrow> h ! (k - 1) < atol \<or> h ! (k - 1) < residual_tol"
    using fin la lk pos by auto
  show ?thesis using lk k1 kn mid fin' by simp
qed

lemmas entropy_defs = entropy_player_def entropy_flat_def entropy_loss_def shannon_entropy_def

lemma entropy_init:
  "cg_init jet_engine entropy_loss entropy_loss entropy_player entropy_flat None
     (shannon_entropy 1) (1 / 1000000) = Inr ([[0, 0, 0]], [[2, 1, 1 / 4]], 81 / 16000000)"
  by (simp add: cg_init_def solver_defs entropy_defs upt3)

lemma entropy_pass1:
  "cg_body jet_engine entropy_loss entropy_player entropy_flat (shannon_entropy 1)
     (81 / 16000000) (1 / 1000000)
     \<lparr>st_x = [[0, 0, 0]], st_r = [[2, 1, 1 / 4]], st_p = [[2, 1, 1 / 4]], st_rdotr = 81 / 16\<rparr>
   = Inr (False, \<lparr>st_x = [[27 / 256, 27 / 512, 27 / 2048]],
                   st_r = [[101 / 64, - (19 / 8), - (25 / 8)]],
                   st_p = [[1107 / 128, 297 / 256, - (2295 / 1024)]],
                   st_rdotr = 73305 / 4096\<rparr>)"
  by (simp add: cg_body_def solver_defs entropy_defs)

lemma entropy_pass2:
  "cg_body jet_engine entropy_loss entropy_player entropy_flat (shannon_entropy 1)
     (81 / 16000000) (1 / 1000000)
     \<lparr>st_x = [[27 / 256, 27 / 512, 27 / 2048]],
      st_r = [[101 / 64, - (19 / 8), - (25 / 8)]],
      st_p = [[1107 / 128, 297 / 256, - (2295 / 1024)]],
      st_rdotr = 73305 / 4096\<rparr>
   = Inr (False, \<lparr>st_x = [[62 / 313, 5221 / 80128, - (3467 / 320512)]],
                   st_r = [[378 / 313, - (3969 / 1252), 945 / 313]],
                   st_p = [[1094688 / 97969, - (718389 / 391876), 171045 / 391876]],
                   st_rdotr = 32327505 / 1567504\<rparr>)"
  by (simp add: cg_body_def solver_defs entropy_defs)

lemma entropy_pass3:
  "cg_body jet_engine entropy_loss entropy_player entropy_flat (shannon_entropy 1)
     (81 / 16000000) (1 / 1000000)
     \<lparr>st_x = [[62 / 313, 5221 / 80128, - (3467 / 320512)]],
      st_r = [[378 / 313, - (3969 / 1252), 945 / 313]],
      st_p = [[1094688 / 97969, - (718389 / 391876), 171045 / 391876]],
      st_rdotr = 32327505 / 1567504\<rparr>
   = Inr (True, \<lparr>st_x = [[1 / 2, 1 / 64, 1 / 1024]],
                  st_r = [[0, 0, 0]],
                  st_p = [[1094688 / 97969, - (718389 / 391876), 171045 / 391876]],
                  st_rdotr = 32327505 / 1567504\<rparr>)"
  by (simp add: cg_body_def solver_defs entropy_defs)

lemma entropy_sq0: "sq_norm [[2, 1, 1 / 4]] = 81 / 16"
  by (simp add: sq_norm_def)

lemma entropy_run:
  "metamatrix_conjugate_gradient jet_engine entropy_loss entropy_loss entropy_player entropy_flat
     None (shannon_entropy 1) 5 (1 / 1000000) (1 / 1000000) = Inr ([[1 / 2, 1 / 64, 1 / 1024]], 3)"
  by (simp add: mcg_unfold[OF entropy_init] entropy_sq0 upt5 entropy_pass1 entropy_pass2 entropy_pass3)

lemma entropy_history:
  "cg_residuals (cg_body jet_engine entropy_loss entropy_player entropy_flat (shannon_entropy 1)
       (81 / 16000000) (1 / 1000000)) 5
     \<lparr>st_x = [[0, 0, 0]], st_r = [[2, 1, 1 / 4]], st_p = [[2, 1, 1 / 4]], st_rdotr = 81 / 16\<rparr>
   = [73305 / 4096, 32327505 / 1567504, 0]"
  by (simp add: eval_nat_numeral entropy_pass1 entropy_pass2 entropy_pass3 sq_norm_def)

text \<open>
  Claim C4, as stated, fails. On the one-player game under \<open>shannon_entropy 1\<close> the call
  with the default \<open>n_steps = 5\<close> and tolerances \<open>10\<^sup>-\<^sup>6\<close> does not exit early and returns
  after three iterations; the joint squared residual starts at \<open>81/16\<close>, is
  \<open>73305/4096\<close> after the first iteration and \<open>32327505/1567504\<close> after the second: it
  grows twice before it reaches \<open>0\<close>.
\<close>

theorem cg_residual_increases:
  "cg_init jet_engine entropy_loss entropy_loss entropy_player entropy_flat None
     (shannon_entropy 1) (1 / 1000000) = Inr ([[0, 0, 0]], [[2, 1, 1 / 4]], 81 / 16000000)
   \<and> sq_norm [[2, 1, 1 / 4]] = 81 / 16
   \<and> metamatrix_conjugate_gradient jet_engine entropy_loss entropy_loss entropy_player entropy_flat
        None (shannon_entropy 1) 5 (1 / 1000000) (1 / 1000000) = Inr ([[1 / 2, 1 / 64, 1 / 1024]], 3)
   \<and> cg_residuals (cg_body jet_engine entropy_loss entropy_player entropy_flat (shannon_entropy 1)
          (81 / 16000000) (1 / 1000000)) 5
        \<lparr>st_x = [[0, 0, 0]], st_r = [[2, 1, 1 / 4]], st_p = [[2, 1, 1 / 4]], st_rdotr = 81 / 16\<rparr>
      = [73305 / 4096, 32327505 / 1567504, 0]
   \<and> (81 / 16 :: real) < 73305 / 4096 \<and> (73305 / 4096 :: real) < 32327505 / 1567504"
  using entropy_init entropy_sq0 entropy_run entropy_history by simp

theorem cg_residual_history_witness:
  "cg_residuals (cg_body jet_engine entropy_loss entropy_player entropy_flat (shannon_entropy 1)
       (81 / 16000000) (1 / 1000000)) (nat 5)
     \<lparr>st_x = [[0, 0, 0]], st_r = [[2, 1, 1 / 4]], st_p = [[2, 1, 1 / 4]],
      st_rdotr = sq_norm [[2, 1, 1 / 4]]\<rparr>
     = [73305 / 4096, 32327505 / 1567504, 0]
   \<and> length [73305 / 4096, 32327505 / 1567504, 0 :: real] = 3
   \<and> \<not> ((73305 / 4096 :: real) < 1 / 1000000 \<or> (73305 / 4096 :: real) < 81 / 16000000)
   \<and> \<not> ((32327505 / 1567504 :: real) < 1 / 1000000 \<or> (32327505 / 1567504 :: real) < 81 / 16000000)
   \<and> ((0 :: real) < 1 / 1000000 \<or> (0 :: real) < 81 / 16000000)"
proof -
  have ne: "\<not> (sq_norm [[2, 1, 1 / 4]] < 81 / 16000000 \<or> sq_norm [[2, 1, 1 / 4]] < (1 / 1000000 :: real))"
    by (simp add: entropy_sq0)
  have h: "[73305 / 4096, 32327505 / 1567504, 0]
     = cg_residuals (cg_body jet_engine entropy_loss entropy_player entropy_flat (shannon_entropy 1)
          (81 / 16000000) (1 / 1000000)) (nat 5)
        \<lparr>st_x = [[0, 0, 0]], st_r = [[2, 1, 1 / 4]], st_p = [[2, 1, 1 / 4]],
          st_rdotr = sq_norm [[2, 1, 1 / 4]]\<rparr>"
    using entropy_history by (simp add: entropy_sq0)
  note t = cg_residual_history[OF entropy_init ne entropy_run h]
  have a: "length [73305 / 4096, 32327505 / 1567504, 0 :: real] = 3" using t by blast
  have m: "\<forall>m. Suc m < 3 \<longrightarrow> \<not> ([73305 / 4096, 32327505 / 1567504, 0 :: real] ! m < 1 / 1000000
          \<or> [73305 / 4096, 32327505 / 1567504, 0 :: real] ! m < 81 / 16000000)"
    using t by blast
  have l: "[73305 / 4096, 32327505 / 1567504, 0 :: real] ! (3 - 1) < 1 / 1000000
          \<or> [73305 / 4096, 32327505 / 1567504, 0 :: real] ! (3 - 1) < 81 / 16000000"
    using t by simp
  from m[rule_format, of 0] m[rule_format, of 1] l a h[symmetric] show ?thesis by simp
qed

lemma cg_for_range:
  "cg_for body [a..<a + n] i st = Inr (i', st') \<Longrightarrow>
     (n = 0 \<and> i' = i) \<or> (\<exists>k. i' = Some k \<and> a \<le> k \<and> k < a + n)"
proof (induction n arbitrary: a i st)
  case 0
  then show ?case by simp
next
  case (Suc n)
  have up: "[a..<a + Suc n] = a # [Suc a..<Suc a + n]" by (simp add: upt_conv_Cons)
  obtain brk st1 where b: "body st = Inr (brk, st1)"
    using Suc.prems unfolding up by (cases "body st") auto
  show ?case
  proof (cases brk)
    case True
    then show ?thesis using Suc.prems b unfolding up by auto
  next
    case False
    then have "cg_for body [Suc a..<Suc a + n] (Some a) st1 = Inr (i', st')"
      using Suc.prems b unfolding up by simp
    from Suc.IH[OF this] show ?thesis by auto
  qed
qed

lemma two_player_hvp:
  "hvp_block jet_engine (bilinear 1) (two_players ! 1) (two_players ! 0) [s] = Inr [s]"
  "hvp_block jet_engine (bilinear 5) (two_players ! 1) (two_players ! 0) [s] = Inr [5 * s]"
  "hvp_block jet_engine (bilinear 1) (two_players ! 0) (two_players ! 1) [s] = Inr [s]"
  "hvp_block jet_engine (bilinear 5) (two_players ! 0) (two_players ! 1) [s] = Inr [5 * s]"
  by (simp_all add: hvp_block_def solver_defs two_player_defs)

lemma two_player_regular:
  "regular_game jet_engine two_losses two_losses two_players [[2], [7]] (squared_distance 1)"
proof -
  let ?P = two_players and ?PF = "[[2], [7 :: real]]"
  have seed: "\<exists>s. seed = [s]" if "length seed = Suc 0" for seed :: vec
    using that by (cases seed) auto
  have sizes: "length ?P = 2" "length two_losses = 2"
    by (simp_all add: two_players_def two_losses_def)
  have each: "?P ! i \<noteq> []
      \<and> length (?PF ! i) = sum_list (map numel (?P ! i))
      \<and> (\<exists>gs. grad_values jet_engine (two_losses ! i) (?P ! i) = Inr gs \<and> fits gs (?P ! i))
      \<and> (\<forall>v. length v = length (?PF ! i) \<longrightarrow>
            (\<exists>d. Dxx_vp (squared_distance 1) (?PF ! i) v = Inr d \<and> length d = length v))"
    if "i < 2" for i
    using that by (auto simp: less_Suc_eq numeral_2_eq_2 two_player_defs jet_engine_def
        jet_uses_def fits_def numel_def)
  have blocks: "(\<exists>h. hvp_block jet_engine (two_losses ! i) (?P ! j) (?P ! i) seed = Inr h
                    \<and> length h = length (?PF ! i))
              \<and> (\<exists>h. hvp_block jet_engine (two_losses ! j) (?P ! j) (?P ! i) seed = Inr h
                    \<and> length h = length (?PF ! i))"
    if "i < 2" "j < 2" "i \<noteq> j" "length seed = length (?PF ! j)" for i j and seed :: vec
  proof -
    have l: "two_losses ! 0 = bilinear 1" "two_losses ! 1 = bilinear 5"
      by (simp_all add: two_losses_def)
    have ij: "(i = 0 \<and> j = 1) \<or> (i = 1 \<and> j = 0)" using that(1,2,3) by auto
    then have "length seed = Suc 0" using that(4) by auto
    then obtain s where "seed = [s]" using seed by blast
    then show ?thesis using ij l two_player_hvp[of s] by auto
  qed
  have top: "?P \<noteq> []" "length two_losses = length ?P" "length ?PF = length ?P"
    by (simp_all add: two_players_def two_losses_def)
  have "\<forall>i < length ?P.
          ?P ! i \<noteq> []
          \<and> length (?PF ! i) = sum_list (map numel (?P ! i))
          \<and> (\<exists>gs. grad_values jet_engine (two_losses ! i) (?P ! i) = Inr gs \<and> fits gs (?P ! i))
          \<and> (\<forall>v. length v = length (?PF ! i) \<longrightarrow>
                (\<exists>d. Dxx_vp (squared_distance 1) (?PF ! i) v = Inr d \<and> length d = length v))
          \<and> (\<forall>j < length ?P. i \<noteq> j \<longrightarrow>
                (\<forall>seed. length seed = length (?PF ! j) \<longrightarrow>
                   (\<exists>h. hvp_block jet_engine (two_losses ! i) (?P ! j) (?P ! i) seed = Inr h
                         \<and> length h = length (?PF ! i))
                   \<and> (\<exists>h. hvp_block jet_engine (two_losses ! j) (?P ! j) (?P ! i) seed = Inr h
                         \<and> length h = length (?PF ! i))))"
    unfolding sizes using each blocks by blast
  then show ?thesis unfolding regular_game_def using top by blast
qed

lemma two_player_init:
  "cg_init jet_engine two_losses two_losses two_players [[2], [7]] None (squared_distance 1)
     (1 / 1000000) = Inr ([[0], [0]], [[- 57], [- 17]], 1769 / 500000)"
  by (simp add: cg_init_def solver_defs two_player_defs upt2)

lemma two_player_pass1:
  "cg_body jet_engine two_losses two_players [[2], [7]] (squared_distance 1)
     (1769 / 500000) (1 / 1000000)
     \<lparr>st_x = [[0], [0]], st_r = [[- 57], [- 17]], st_p = [[- 57], [- 17]], st_rdotr = 3538\<rparr>
   = Inr (False, \<lparr>st_x = [[- (100833 / 48340)], [- (30073 / 48340)]],
                   st_r = [[11679 / 12085], [- (39159 / 12085)]],
                   st_p = [[114238482 / 146047225], [- (481259988 / 146047225)]],
                   st_rdotr = 1669826322 / 146047225\<rparr>)"
  by (simp add: cg_body_def solver_defs two_player_defs upt2)

lemma two_player_pass2:
  "cg_body jet_engine two_losses two_players [[2], [7]] (squared_distance 1)
     (1769 / 500000) (1 / 1000000)
     \<lparr>st_x = [[- (100833 / 48340)], [- (30073 / 48340)]],
      st_r = [[11679 / 12085], [- (39159 / 12085)]],
      st_p = [[114238482 / 146047225], [- (481259988 / 146047225)]],
      st_rdotr = 1669826322 / 146047225\<rparr>
   = Inr (True, \<lparr>st_x = [[- (3 / 4)], [- (25 / 4)]],
                  st_r = [[0], [0]],
                  st_p = [[114238482 / 146047225], [- (481259988 / 146047225)]],
                  st_rdotr = 1669826322 / 146047225\<rparr>)"
  by (simp add: cg_body_def solver_defs two_player_defs upt2)

lemma two_player_run:
  "metamatrix_conjugate_gradient jet_engine two_losses two_losses two_players [[2], [7]]
     None (squared_distance 1) 5 (1 / 1000000) (1 / 1000000) = Inr ([[- (3 / 4)], [- (25 / 4)]], 2)"
  by (simp add: mcg_unfold[OF two_player_init] sq_norm_def upt5 two_player_pass1 two_player_pass2)

text \<open>
  Claim C10, as stated, fails: calls with \<open>n_steps = 5\<close> that raise in the first pass of
  the loop, at \<^verbatim>\<open>torch._foreach_add_(vector_list_flattened, p, alpha=alpha)\<close>. With no
  player at all and \<open>atol = 0\<close> there is no early exit and the tensor lists are empty; with
  one player of three elements and a flattened parameter vector of two, the zero
  starting vector has two elements and the search direction three.
\<close>

theorem cg_raises_with_steps:
  "metamatrix_conjugate_gradient jet_engine [] [] [] [] None (squared_distance 1)
      5 (1 / 1000000) 0 = Inl RuntimeError
   \<and> metamatrix_conjugate_gradient jet_engine entropy_loss entropy_loss entropy_player
      [[1 / 2, 1 / 8]] None (squared_distance 1) 5 (1 / 1000000) (1 / 1000000) = Inl RuntimeError"
proof -
  have a: "metamatrix_conjugate_gradient jet_engine [] [] [] [] None (squared_distance 1)
      5 (1 / 1000000) 0 = Inl RuntimeError"
    by (simp add: metamatrix_conjugate_gradient_def cg_init_def cg_body_def solver_defs upt5)
  have i: "cg_init jet_engine entropy_loss entropy_loss entropy_player [[1 / 2, 1 / 8]] None
      (squared_distance 1) (1 / 1000000)
      = Inr ([[0, 0]], [[1, 1 / 8, 1 / 64]], (1 / 1000000) * (4161 / 4096))"
    by (simp add: cg_init_def solver_defs entropy_player_def entropy_loss_def squared_distance_def
        upt3)
  have b: "cg_body jet_engine entropy_loss entropy_player [[1 / 2, 1 / 8]] (squared_distance 1)
      rt atol \<lparr>st_x = [[0, 0]], st_r = [[1, 1 / 8, 1 / 64]], st_p = [[1, 1 / 8, 1 / 64]],
               st_rdotr = rd\<rparr> = Inl RuntimeError" for rt atol rd
    by (simp add: cg_body_def solver_defs entropy_player_def entropy_loss_def squared_distance_def)
  have c: "metamatrix_conjugate_gradient jet_engine entropy_loss entropy_loss entropy_player
      [[1 / 2, 1 / 8]] None (squared_distance 1) 5 (1 / 1000000) (1 / 1000000) = Inl RuntimeError"
    by (simp add: mcg_unfold[OF i] sq_norm_def upt5 b)
  show ?thesis using a c by simp
qed

text \<open>
  Claim C10, amended. On a regular game, with a guess of the right shape if any and
  \<open>n_steps \<ge> 1\<close>, the solver returns: the starting vector with count \<open>0\<close> on early exit,
  and otherwise a count between \<open>1\<close> and \<open>n_steps\<close>. With \<open>n_steps \<le> 0\<close>, when the
  computation before the loop has succeeded and there is no early exit, the loop never
  binds \<open>i\<close>, and the final \<^verbatim>\<open>return\<close> raises the unbound-variable error.
\<close>

theorem cg_iteration_count:
  "(regular_game E grad_loss_list hessian_loss_list player_list player_list_flattened B
      \<and> guess_fits vector_list_flattened player_list_flattened \<and> 1 \<le> n_steps \<longrightarrow>
      (\<exists>x0 r residual_tol.
         cg_init E grad_loss_list hessian_loss_list player_list player_list_flattened
           vector_list_flattened B tol = Inr (x0, r, residual_tol)
         \<and> (if sq_norm r < residual_tol \<or> sq_norm r < atol
            then metamatrix_conjugate_gradient E grad_loss_list hessian_loss_list player_list
                   player_list_flattened vector_list_flattened B n_steps tol atol = Inr (x0, 0)
            else \<exists>x k. metamatrix_conjugate_gradient E grad_loss_list hessian_loss_list player_list
                          player_list_flattened vector_list_flattened B n_steps tol atol = Inr (x, k)
                        \<and> 1 \<le> k \<and> int k \<le> n_steps)))
   \<and> (cg_init E grad_loss_list hessian_loss_list player_list player_list_flattened
           vector_list_flattened B tol = Inr (x0', r', residual_tol')
        \<and> \<not> (sq_norm r' < residual_tol' \<or> sq_norm r' < atol) \<and> n_steps \<le> 0 \<longrightarrow>
        metamatrix_conjugate_gradient E grad_loss_list hessian_loss_list player_list
          player_list_flattened vector_list_flattened B n_steps tol atol = Inl UnboundLocalError)"
proof (intro conjI impI)
  assume a: "regular_game E grad_loss_list hessian_loss_list player_list player_list_flattened B
      \<and> guess_fits vector_list_flattened player_list_flattened \<and> 1 \<le> n_steps"
  then have reg: "regular_game E grad_loss_list hessian_loss_list player_list player_list_flattened B"
    and g: "guess_fits vector_list_flattened player_list_flattened" and n: "1 \<le> n_steps" by simp_all
  obtain x0 r rt where init: "cg_init E grad_loss_list hessian_loss_list player_list
        player_list_flattened vector_list_flattened B tol = Inr (x0, r, rt)"
    and sx: "map length x0 = map length player_list_flattened"
    and sr: "map length r = map length player_list_flattened"
    using cg_init_regular[OF reg g] by blast
  let ?body = "cg_body E hessian_loss_list player_list player_list_flattened B rt atol"
  let ?I = "\<lambda>st. map length (st_x st) = map length player_list_flattened
               \<and> map length (st_r st) = map length player_list_flattened
               \<and> map length (st_p st) = map length player_list_flattened"
  let ?st0 = "\<lparr>st_x = x0, st_r = r, st_p = r, st_rdotr = sq_norm r\<rparr>"
  have step: "\<exists>brk st'. ?body st = Inr (brk, st') \<and> ?I st'" if "?I st" for st
    using cg_body_regular[OF reg, of st rt atol] that by blast
  have "?I ?st0" using sx sr by simp
  then obtain i st' where run: "cg_for ?body [0..<nat n_steps] None ?st0 = Inr (i, st')"
    using cg_for_invariant[of ?I ?body ?st0 "[0..<nat n_steps]" None] step by blast
  have "cg_for ?body [0..<0 + nat n_steps] None ?st0 = Inr (i, st')" using run by simp
  from cg_for_range[OF this] n obtain k where k: "i = Some k" "k < nat n_steps" by auto
  have late: "metamatrix_conjugate_gradient E grad_loss_list hessian_loss_list player_list
          player_list_flattened vector_list_flattened B n_steps tol atol = Inr (st_x st', k + 1)
        \<and> 1 \<le> k + 1 \<and> int (k + 1) \<le> n_steps"
    if "\<not> (sq_norm r < rt \<or> sq_norm r < atol)"
    using that run k unfolding mcg_unfold[OF init] by simp
  have early: "metamatrix_conjugate_gradient E grad_loss_list hessian_loss_list player_list
          player_list_flattened vector_list_flattened B n_steps tol atol = Inr (x0, 0)"
    if "sq_norm r < rt \<or> sq_norm r < atol"
    using that unfolding mcg_unfold[OF init] by simp
  show "\<exists>x0 r residual_tol.
         cg_init E grad_loss_list hessian_loss_list player_list player_list_flattened
           vector_list_flattened B tol = Inr (x0, r, residual_tol)
         \<and> (if sq_norm r < residual_tol \<or> sq_norm r < atol
            then metamatrix_conjugate_gradient E grad_loss_list hessian_loss_list player_list
                   player_list_flattened vector_list_flattened B n_steps tol atol = Inr (x0, 0)
            else \<exists>x k. metamatrix_conjugate_gradient E grad_loss_list hessian_loss_list player_list
                          player_list_flattened vector_list_flattened B n_steps tol atol = Inr (x, k)
                        \<and> 1 \<le> k \<and> int k \<le> n_steps)"
  proof -
    have "if sq_norm r < rt \<or> sq_norm r < atol
            then metamatrix_conjugate_gradient E grad_loss_list hessian_loss_list player_list
                   player_list_flattened vector_list_flattened B n_steps tol atol = Inr (x0, 0)
            else \<exists>x k. metamatrix_conjugate_gradient E grad_loss_list hessian_loss_list player_list
                          player_list_flattened vector_list_flattened B n_steps tol atol = Inr (x, k)
                        \<and> 1 \<le> k \<and> int k \<le> n_steps"
    proof (cases "sq_norm r < rt \<or> sq_norm r < atol")
      case True
      then show ?thesis using early by simp
    next
      case False
      then show ?thesis using late[OF False] by (simp only: if_False) blast
    qed
    with init show ?thesis by blast
  qed
next
  assume "cg_init E grad_loss_list hessian_loss_list player_list player_list_flattened
           vector_list_flattened B tol = Inr (x0', r', residual_tol')
        \<and> \<not> (sq_norm r' < residual_tol' \<or> sq_norm r' < atol) \<and> n_steps \<le> 0"
  then show "metamatrix_conjugate_gradient E grad_loss_list hessian_loss_list player_list
          player_list_flattened vector_list_flattened B n_steps tol atol = Inl UnboundLocalError"
    by (simp add: mcg_unfold)
qed

theorem cg_iteration_count_witness:
  "metamatrix_conjugate_gradient jet_engine two_losses two_losses two_players [[2], [7]]
     None (squared_distance 1) 5 (1 / 1000000) (1 / 1000000) = Inr ([[- (3 / 4)], [- (25 / 4)]], 2)
   \<and> (\<exists>x k. metamatrix_conjugate_gradient jet_engine two_losses two_losses two_players
          [[2], [7]] None (squared_distance 1) 5 (1 / 1000000) (1 / 1000000) = Inr (x, k)
        \<and> 1 \<le> k \<and> int k \<le> 5)
   \<and> metamatrix_conjugate_gradient jet_engine two_losses two_losses two_players [[2], [7]]
     None (squared_distance 1) 0 (1 / 1000000) (1 / 1000000) = Inl UnboundLocalError"
proof -
  have hyp: "regular_game jet_engine two_losses two_losses two_players [[2], [7]]
      (squared_distance 1) \<and> guess_fits None [[2], [7 :: real]] \<and> (1 :: int) \<le> 5"
    using two_player_regular by (simp add: guess_fits_def)
  have ne: "\<not> (sq_norm [[- 57], [- 17]] < 1769 / 500000
             \<or> sq_norm [[- 57], [- 17]] < (1 / 1000000 :: real))"
    by (simp add: sq_norm_def)
  note t = cg_iteration_count[of jet_engine two_losses two_losses two_players "[[2], [7]]"
      "squared_distance 1" None 5 "1 / 1000000" "1 / 1000000"]
  from t[THEN conjunct1, rule_format, OF hyp] two_player_init ne
  have a: "\<exists>x k. metamatrix_conjugate_gradient jet_engine two_losses two_losses two_players
          [[2], [7]] None (squared_distance 1) 5 (1 / 1000000) (1 / 1000000) = Inr (x, k)
        \<and> 1 \<le> k \<and> int k \<le> 5"
    by auto
  have b: "metamatrix_conjugate_gradient jet_engine two_losses two_losses two_players [[2], [7]]
     None (squared_distance 1) 0 (1 / 1000000) (1 / 1000000) = Inl UnboundLocalError"
    using cg_iteration_count[of jet_engine two_losses two_losses two_players "[[2], [7]]"
      "squared_distance 1" None 0 "1 / 1000000" "1 / 1000000" "[[0], [0]]" "[[- 57], [- 17]]"
      "1769 / 500000", THEN conjunct2] two_player_init ne
    by simp
  show ?thesis using a b two_player_run by blast
qed

section \<open>Warm starts\<close>

















end
